theory Spec2Isabelle
  imports Main "HOL-Library.AList"
begin

section \<open>Python values\<close>

text \<open>
  The exceptions the module can raise, under the names the specification gives them.
  \<^item> \<open>InvalidKey\<close>: the \<open>TypeError\<close> of the \<open>isinstance(key, str)\<close> guards;
  \<^item> \<open>UnsupportedValue\<close>: the \<open>TypeError\<close> of \<open>json.dumps\<close>;
  \<^item> \<open>KeyNotFound\<close>: \<open>KeyError\<close>;
  \<^item> \<open>ClosedStoreError\<close>: \<open>CupboardClosedError\<close>;
  \<^item> \<open>UnsupportedMode\<close>: the \<open>NotImplementedError\<close> of the constructor;
  \<^item> \<open>DecodeError\<close>: the \<open>ValueError\<close> of \<open>json.loads\<close> on a text that is not JSON;
  \<^item> \<open>BindError\<close>, \<open>IntOverflow\<close>: sqlite3 refusing to bind a parameter
    (an unsupported type, an integer outside 64 bits);
  \<^item> \<open>Unhashable\<close>: the \<open>TypeError\<close> of a dict operation on an unhashable key.
\<close>

datatype error =
    InvalidKey | UnsupportedValue | KeyNotFound | ClosedStoreError | UnsupportedMode
  | DecodeError | BindError | IntOverflow | Unhashable

text \<open>
  IEEE arithmetic is outside this development. A float is carried opaquely; what the
  program can observe of it are two renderings: the text \<open>json\<close> writes for it
  (\<open>float.__repr__\<close>, or \<open>NaN\<close>, \<open>Infinity\<close>, \<open>-Infinity\<close>), which determines the
  float, and the text SQLite's TEXT affinity converts a bound REAL to (none for NaN,
  which binds as NULL).
\<close>

datatype pyfloat = PyFloat (float_repr: string) (float_sqltext: "string option")

text \<open>Keys of a Python dict: hashable objects. \<open>KOther\<close> is any hashable that is
  not a str, int, float, bool or None (a tuple, say).\<close>

datatype hkey = KStr string | KInt int | KBool bool | KNone | KFloat pyfloat | KOther nat

text \<open>The values SQLite stores and sqlite3 binds for a parameter.\<close>

datatype sqlval = SqlNull | SqlInt int | SqlReal pyfloat | SqlText string | SqlBlob string

text \<open>
  Python objects as the module sees them. A dict is its list of items in insertion order.
  \<open>PObject\<close> is any object of another type that sqlite3 has no adapter for (a set, an
  instance of a user class). \<open>PAdapted\<close> is an object of another type that sqlite3
  adapts before binding: a \<open>datetime.date\<close> or \<open>datetime.datetime\<close> (the adapters
  sqlite3 registers by itself give their ISO text), or an object whose \<open>__conform__\<close>
  answers the protocol. It is carried with the value its adapter gives and with whether
  it can be hashed.
\<close>

datatype pyval =
    PNone | PBool bool | PInt int | PFloat pyfloat | PStr string | PBytes string
  | PList "pyval list" | PTuple "pyval list" | PDict "(hkey \<times> pyval) list" | PObject nat
  | PAdapted sqlval bool

text \<open>\<open>isinstance(value, (dict, list))\<close>\<close>

fun is_mutable :: "pyval \<Rightarrow> bool" where
  "is_mutable (PList _) = True"
| "is_mutable (PDict _) = True"
| "is_mutable _ = False"

section \<open>The json codec\<close>

text \<open>
  A JSON text is represented by the document it denotes: \<open>json.dumps\<close> is deterministic,
  and \<open>json.loads\<close> reads a text through its document.
\<close>

datatype json =
    JNull | JBool bool | JInt int | JFloat pyfloat | JStr string
  | JArr "json list" | JObj "(string \<times> json) list"

text \<open>Decimal rendering of an integer, as \<open>int.__repr__\<close> gives it.\<close>

definition digit_char :: "nat \<Rightarrow> char" where
  "digit_char d = char_of (48 + d)"

fun dec_nat :: "nat \<Rightarrow> string" where
  "dec_nat n = (if n < 10 then [digit_char n] else dec_nat (n div 10) @ [digit_char (n mod 10)])"

declare dec_nat.simps [simp del]

definition dec_int :: "int \<Rightarrow> string" where
  "dec_int i = (if i < 0 then CHR ''-'' # dec_nat (nat (- i)) else dec_nat (nat i))"

text \<open>
  The encoder's treatment of a dict key: a str is kept, a float, bool, None or int is
  written as text, anything else raises \<open>TypeError\<close> (\<open>skipkeys\<close> is off).
\<close>

fun key_text :: "hkey \<Rightarrow> error + string" where
  "key_text (KStr s) = Inr s"
| "key_text (KFloat f) = Inr (float_repr f)"
| "key_text (KBool b) = Inr (if b then ''true'' else ''false'')"
| "key_text KNone = Inr ''null''"
| "key_text (KInt i) = Inr (dec_int i)"
| "key_text (KOther _) = Inl UnsupportedValue"

text \<open>
  \<open>json.dumps\<close> with its default arguments: lists and tuples both become arrays,
  NaN and the infinities are written (\<open>allow_nan\<close> is on), and an object of any other
  type raises \<open>TypeError\<close>.
\<close>

fun dumps :: "pyval \<Rightarrow> error + json"
and dumps_seq :: "pyval list \<Rightarrow> error + json list"
and dumps_items :: "(hkey \<times> pyval) list \<Rightarrow> error + (string \<times> json) list" where
  "dumps PNone = Inr JNull"
| "dumps (PBool b) = Inr (JBool b)"
| "dumps (PInt i) = Inr (JInt i)"
| "dumps (PFloat f) = Inr (JFloat f)"
| "dumps (PStr s) = Inr (JStr s)"
| "dumps (PBytes _) = Inl UnsupportedValue"
| "dumps (PList xs) = (case dumps_seq xs of Inl e \<Rightarrow> Inl e | Inr js \<Rightarrow> Inr (JArr js))"
| "dumps (PTuple xs) = (case dumps_seq xs of Inl e \<Rightarrow> Inl e | Inr js \<Rightarrow> Inr (JArr js))"
| "dumps (PDict kvs) = (case dumps_items kvs of Inl e \<Rightarrow> Inl e | Inr ps \<Rightarrow> Inr (JObj ps))"
| "dumps (PObject _) = Inl UnsupportedValue"
| "dumps (PAdapted _ _) = Inl UnsupportedValue"
| "dumps_seq [] = Inr []"
| "dumps_seq (x # xs) =
     (case dumps x of Inl e \<Rightarrow> Inl e
      | Inr j \<Rightarrow> (case dumps_seq xs of Inl e \<Rightarrow> Inl e | Inr js \<Rightarrow> Inr (j # js)))"
| "dumps_items [] = Inr []"
| "dumps_items (kv # kvs) =
     (case key_text (fst kv) of Inl e \<Rightarrow> Inl e
      | Inr s \<Rightarrow> (case dumps (snd kv) of Inl e \<Rightarrow> Inl e
          | Inr j \<Rightarrow> (case dumps_items kvs of Inl e \<Rightarrow> Inl e | Inr ps \<Rightarrow> Inr ((s, j) # ps))))"

text \<open>
  \<open>dict(pairs)\<close>: a later pair with a key already present replaces the value in place,
  a new key is appended.
\<close>

definition py_dict :: "('k \<times> 'v) list \<Rightarrow> ('k \<times> 'v) list" where
  "py_dict ps = foldl (\<lambda>d kv. AList.update (fst kv) (snd kv) d) [] ps"

text \<open>\<open>json.loads\<close> on a document: arrays become lists, objects become dicts with
  str keys.\<close>

fun loads :: "json \<Rightarrow> pyval"
and loads_seq :: "json list \<Rightarrow> pyval list"
and loads_items :: "(string \<times> json) list \<Rightarrow> (hkey \<times> pyval) list" where
  "loads JNull = PNone"
| "loads (JBool b) = PBool b"
| "loads (JInt i) = PInt i"
| "loads (JFloat f) = PFloat f"
| "loads (JStr s) = PStr s"
| "loads (JArr js) = PList (loads_seq js)"
| "loads (JObj ps) = PDict (py_dict (loads_items ps))"
| "loads_seq [] = []"
| "loads_seq (j # js) = loads j # loads_seq js"
| "loads_items [] = []"
| "loads_items (p # ps) = (KStr (fst p), loads (snd p)) # loads_items ps"

text \<open>
  The text of a \<open>value\<close> column: what \<open>json.dumps\<close> wrote, or a text put there by
  another tool that is not JSON.
\<close>

datatype sqltext = JsonText json | OtherText string

definition json_dumps :: "pyval \<Rightarrow> error + sqltext" where
  "json_dumps v = (case dumps v of Inl e \<Rightarrow> Inl e | Inr j \<Rightarrow> Inr (JsonText j))"

fun json_loads :: "sqltext \<Rightarrow> error + pyval" where
  "json_loads (JsonText j) = Inr (loads j)"
| "json_loads (OtherText _) = Inl DecodeError"

text \<open>
  The values the class documents as usable: None, bool, int, float, str, a list of such
  values, a dict from str keys to such values. The keys of a dict are pairwise distinct.
\<close>

fun supported :: "pyval \<Rightarrow> bool"
and supported_seq :: "pyval list \<Rightarrow> bool"
and supported_items :: "(hkey \<times> pyval) list \<Rightarrow> bool" where
  "supported PNone = True"
| "supported (PBool _) = True"
| "supported (PInt _) = True"
| "supported (PFloat _) = True"
| "supported (PStr _) = True"
| "supported (PBytes _) = False"
| "supported (PList xs) = supported_seq xs"
| "supported (PTuple _) = False"
| "supported (PDict kvs) = (supported_items kvs \<and> distinct (map fst kvs))"
| "supported (PObject _) = False"
| "supported (PAdapted _ _) = False"
| "supported_seq [] = True"
| "supported_seq (x # xs) = (supported x \<and> supported_seq xs)"
| "supported_items [] = True"
| "supported_items (kv # kvs) =
     ((case fst kv of KStr _ \<Rightarrow> True | _ \<Rightarrow> False) \<and> supported (snd kv) \<and> supported_items kvs)"

section \<open>The sqlite table\<close>

text \<open>
  The committed rows of the table \<open>cupboard (key TEXT PRIMARY KEY, value TEXT NOT NULL)\<close>,
  listed in the order of their insertion. SQLite is free to enumerate them in another
  order (that of the key index, say); nothing below depends on the order. Every statement of the module runs in a transaction that is committed
  before the method returns, or rolled back when it raises.
\<close>

type_synonym table = "(string \<times> sqltext) list"

text \<open>
  The value sqlite3 binds for a Python parameter: None, an int within 64 bits (a bool is
  an int), a float, a str and bytes are bound as they are, an object with an adapter as
  what the adapter gives, and anything else is refused. The module registers no adapter,
  so the built-in containers have none.
\<close>

fun sqlite_bind :: "pyval \<Rightarrow> error + sqlval" where
  "sqlite_bind PNone = Inr SqlNull"
| "sqlite_bind (PBool b) = Inr (SqlInt (if b then 1 else 0))"
| "sqlite_bind (PInt i) =
     (if - (2 ^ 63) \<le> i \<and> i < 2 ^ 63 then Inr (SqlInt i) else Inl IntOverflow)"
| "sqlite_bind (PFloat f) = Inr (SqlReal f)"
| "sqlite_bind (PStr s) = Inr (SqlText s)"
| "sqlite_bind (PBytes b) = Inr (SqlBlob b)"
| "sqlite_bind (PList _) = Inl BindError"
| "sqlite_bind (PTuple _) = Inl BindError"
| "sqlite_bind (PDict _) = Inl BindError"
| "sqlite_bind (PObject _) = Inl BindError"
| "sqlite_bind (PAdapted p _) = Inr p"

text \<open>
  \<open>key = ?\<close> compares a column of TEXT affinity with a parameter, which has none:
  SQLite applies TEXT affinity to the parameter before comparing (Datatypes in SQLite,
  Type Conversions Prior To Comparison), so an INTEGER or REAL is compared as its text:
  \<open>WHERE key = 42\<close> selects the row whose key is the text \<open>42\<close>. NULL equals
  nothing, and a BLOB never equals a TEXT.
\<close>

fun text_affinity :: "sqlval \<Rightarrow> string option" where
  "text_affinity SqlNull = None"
| "text_affinity (SqlInt i) = Some (dec_int i)"
| "text_affinity (SqlReal f) = float_sqltext f"
| "text_affinity (SqlText s) = Some s"
| "text_affinity (SqlBlob _) = None"

text \<open>\<open>SELECT value FROM cupboard WHERE key = ?\<close> with a str parameter, \<open>fetchone()\<close>\<close>

definition select_value :: "table \<Rightarrow> string \<Rightarrow> sqltext option" where
  "select_value t k = map_of t k"

text \<open>\<open>INSERT OR REPLACE INTO cupboard VALUES (?, ?)\<close>: the row holding the key, if
  any, is deleted and the new row is inserted.\<close>

definition insert_or_replace :: "string \<Rightarrow> sqltext \<Rightarrow> table \<Rightarrow> table" where
  "insert_or_replace k v t = AList.delete k t @ [(k, v)]"

text \<open>\<open>DELETE FROM cupboard WHERE key = ?\<close>\<close>

definition delete_where :: "sqlval \<Rightarrow> table \<Rightarrow> table" where
  "delete_where p t = (case text_affinity p of None \<Rightarrow> t | Some k \<Rightarrow> AList.delete k t)"

section \<open>The Cupboard object and its environment\<close>

type_synonym addr = nat

text \<open>
  What lives outside the Cupboard object: the rows of the backing file, the Python
  objects by address (the caller and the cache may hold the same address), and the
  sqlite connections opened so far, each open (\<open>True\<close>) or closed by
  \<open>Connection.close()\<close>. An address is the index of an object in the heap; a list
  or a dict holds its elements by value, so sharing below the top level is not modelled.
  What the interpreter does with a connection that nothing refers to any more is not
  modelled either: a connection is closed here only by a call of \<open>Connection.close()\<close>.
\<close>

record env =
  rows :: table
  heap :: "pyval list"
  conns :: "bool list"

text \<open>The slots of a Cupboard. \<open>slot_cache\<close> and \<open>slot_conn\<close> are \<open>_cache\<close> and
  \<open>_conn\<close>; \<open>None\<close> is Python's \<open>None\<close>.\<close>

record cupboard =
  writeback :: bool
  slot_cache :: "(string \<times> addr) list option"
  slot_conn :: "nat option"

type_synonym state = "cupboard \<times> env"

text \<open>A method returns its value or the exception it raised, and the state it left.\<close>

type_synonym 'a outcome = "(error + 'a) \<times> state"

text \<open>The properties \<open>cache\<close> and \<open>conn\<close>.\<close>

definition cache :: "cupboard \<Rightarrow> error + (string \<times> addr) list" where
  "cache self = (case slot_cache self of None \<Rightarrow> Inl ClosedStoreError | Some c \<Rightarrow> Inr c)"

definition conn :: "cupboard \<Rightarrow> error + nat" where
  "conn self = (case slot_conn self of None \<Rightarrow> Inl ClosedStoreError | Some c \<Rightarrow> Inr c)"

text \<open>\<open>Cupboard.__init__\<close>, reached through \<open>open\<close>: a new connection on the file;
  \<open>CREATE TABLE IF NOT EXISTS\<close> leaves the rows as they are.\<close>

definition open_cupboard :: "string \<Rightarrow> bool \<Rightarrow> env \<Rightarrow> (error + cupboard) \<times> env" where
  "open_cupboard flag wb e =
     (if flag \<noteq> ''c'' then (Inl UnsupportedMode, e)
      else (Inr \<lparr>writeback = wb, slot_cache = Some [], slot_conn = Some (length (conns e))\<rparr>,
            e\<lparr>conns := conns e @ [True]\<rparr>))"

text \<open>\<open>__iter__\<close>, run to its end: the generator reaches \<open>self.conn\<close> at the first
  \<open>next\<close>.\<close>

definition iter :: "state \<Rightarrow> string list outcome" where
  "iter = (\<lambda>(self, e).
     case conn self of Inl err \<Rightarrow> (Inl err, self, e)
     | Inr _ \<Rightarrow> (Inr (map fst (rows e)), self, e))"

text \<open>\<open>__len__\<close>: \<open>SELECT COUNT(*)\<close> always yields a row.\<close>

definition len :: "state \<Rightarrow> nat outcome" where
  "len = (\<lambda>(self, e).
     case conn self of Inl err \<Rightarrow> (Inl err, self, e)
     | Inr _ \<Rightarrow> (Inr (length (rows e)), self, e))"

text \<open>\<open>_update_cache\<close>: the key is a str here, the value an object by address.\<close>

definition update_cache :: "state \<Rightarrow> string \<Rightarrow> addr \<Rightarrow> unit outcome" where
  "update_cache = (\<lambda>(self, e) key value.
     case cache self of Inl err \<Rightarrow> (Inl err, self, e)
     | Inr c \<Rightarrow>
         let c1 = AList.delete key c in
         if writeback self \<and> is_mutable (heap e ! value)
         then (Inr (), self\<lparr>slot_cache := Some (AList.update key value c1)\<rparr>, e)
         else (Inr (), self\<lparr>slot_cache := Some c1\<rparr>, e))"

text \<open>\<open>__getitem__\<close>: a decoded value is a new object.\<close>

definition getitem :: "state \<Rightarrow> pyval \<Rightarrow> addr outcome" where
  "getitem = (\<lambda>(self, e) key.
     case key of
       PStr k \<Rightarrow>
         (case cache self of Inl err \<Rightarrow> (Inl err, self, e)
          | Inr c \<Rightarrow>
              (case map_of c k of Some a \<Rightarrow> (Inr a, self, e)
               | None \<Rightarrow>
                   (case conn self of Inl err \<Rightarrow> (Inl err, self, e)
                    | Inr _ \<Rightarrow>
                        (case select_value (rows e) k of None \<Rightarrow> (Inl KeyNotFound, self, e)
                         | Some jstr \<Rightarrow>
                             (case json_loads jstr of Inl err \<Rightarrow> (Inl err, self, e)
                              | Inr v \<Rightarrow>
                                  let a = length (heap e); e1 = e\<lparr>heap := heap e @ [v]\<rparr> in
                                  (case update_cache (self, e1) k a of
                                     (Inl err, st) \<Rightarrow> (Inl err, st)
                                   | (Inr _, st) \<Rightarrow> (Inr a, st)))))))
     | _ \<Rightarrow> (Inl InvalidKey, self, e))"

text \<open>\<open>__setitem__\<close>\<close>

definition setitem :: "state \<Rightarrow> pyval \<Rightarrow> addr \<Rightarrow> unit outcome" where
  "setitem = (\<lambda>(self, e) key value.
     case key of
       PStr k \<Rightarrow>
         (case json_dumps (heap e ! value) of Inl err \<Rightarrow> (Inl err, self, e)
          | Inr jstr \<Rightarrow>
              (case conn self of Inl err \<Rightarrow> (Inl err, self, e)
               | Inr _ \<Rightarrow> update_cache (self, e\<lparr>rows := insert_or_replace k jstr (rows e)\<rparr>) k value))
     | _ \<Rightarrow> (Inl InvalidKey, self, e))"

text \<open>\<open>dict.pop(key, None)\<close> on the cache, whose keys are strs: a list or a dict
  cannot be hashed, nor can an object of another type that says so; any other object
  that is not a str equals no key.\<close>

fun cache_pop :: "pyval \<Rightarrow> (string \<times> addr) list \<Rightarrow> error + (string \<times> addr) list" where
  "cache_pop (PStr k) c = Inr (AList.delete k c)"
| "cache_pop (PList _) c = Inl Unhashable"
| "cache_pop (PDict _) c = Inl Unhashable"
| "cache_pop (PAdapted _ h) c = (if h then Inr c else Inl Unhashable)"
| "cache_pop _ c = Inr c"

text \<open>\<open>__delitem__\<close>: no check of the key's type.\<close>

definition delitem :: "state \<Rightarrow> pyval \<Rightarrow> unit outcome" where
  "delitem = (\<lambda>(self, e) key.
     case conn self of Inl err \<Rightarrow> (Inl err, self, e)
     | Inr _ \<Rightarrow>
         (case sqlite_bind key of Inl err \<Rightarrow> (Inl err, self, e)
          | Inr p \<Rightarrow>
              let e1 = e\<lparr>rows := delete_where p (rows e)\<rparr> in
              (case cache self of Inl err \<Rightarrow> (Inl err, self, e1)
               | Inr c \<Rightarrow>
                   (case cache_pop key c of Inl err \<Rightarrow> (Inl err, self, e1)
                    | Inr c1 \<Rightarrow> (Inr (), self\<lparr>slot_cache := Some c1\<rparr>, e1)))))"

text \<open>\<open>Mapping.__contains__\<close>, which the class inherits: \<open>self[key]\<close> with
  \<open>KeyError\<close> caught.\<close>

definition contains :: "state \<Rightarrow> pyval \<Rightarrow> bool outcome" where
  "contains st key =
     (case getitem st key of
        (Inl KeyNotFound, st1) \<Rightarrow> (Inr False, st1)
      | (Inl err, st1) \<Rightarrow> (Inl err, st1)
      | (Inr _, st1) \<Rightarrow> (Inr True, st1))"

text \<open>The loop of \<open>sync\<close>, on the rows of the open transaction.\<close>

fun sync_loop :: "(string \<times> addr) list \<Rightarrow> pyval list \<Rightarrow> table \<Rightarrow> error + table" where
  "sync_loop [] h t = Inr t"
| "sync_loop (kv # c) h t =
     (case json_dumps (h ! snd kv) of Inl err \<Rightarrow> Inl err
      | Inr jstr \<Rightarrow> sync_loop c h (insert_or_replace (fst kv) jstr t))"

text \<open>\<open>sync\<close>: the transaction is committed when the loop ends, rolled back when
  \<open>json.dumps\<close> raises.\<close>

definition sync :: "state \<Rightarrow> unit outcome" where
  "sync = (\<lambda>(self, e).
     case cache self of Inl err \<Rightarrow> (Inl err, self, e)
     | Inr c \<Rightarrow>
         if c = [] then (Inr (), self, e)
         else (case conn self of Inl err \<Rightarrow> (Inl err, self, e)
               | Inr _ \<Rightarrow>
                   (case sync_loop c (heap e) (rows e) of Inl err \<Rightarrow> (Inl err, self, e)
                    | Inr t \<Rightarrow> (Inr (), self, e\<lparr>rows := t\<rparr>))))"

text \<open>\<open>close\<close>: \<open>CupboardClosedError\<close> is caught, any other exception passes; the
  \<open>finally\<close> clause clears both slots in every case.\<close>

definition close :: "state \<Rightarrow> unit outcome" where
  "close st =
     (let (r, self1, e1) =
        (case sync st of
           (Inl err, st1) \<Rightarrow> (Inl err, st1)
         | (Inr _, self', e') \<Rightarrow>
             (case conn self' of Inl err \<Rightarrow> (Inl err, self', e')
              | Inr cn \<Rightarrow> (Inr (), self', e'\<lparr>conns := (conns e')[cn := False]\<rparr>)));
        r1 = (case r of Inl ClosedStoreError \<Rightarrow> Inr () | _ \<Rightarrow> r)
      in (r1, self1\<lparr>slot_conn := None, slot_cache := None\<rparr>, e1))"

text \<open>What the caller does to objects: create one, or change a list or a dict in place
  (the object keeps its address and its type).\<close>

definition alloc :: "pyval \<Rightarrow> env \<Rightarrow> addr \<times> env" where
  "alloc v e = (length (heap e), e\<lparr>heap := heap e @ [v]\<rparr>)"

fun same_type :: "pyval \<Rightarrow> pyval \<Rightarrow> bool" where
  "same_type (PList _) (PList _) = True"
| "same_type (PDict _) (PDict _) = True"
| "same_type _ _ = False"

definition mutate :: "addr \<Rightarrow> pyval \<Rightarrow> env \<Rightarrow> env" where
  "mutate a v e = (if a < length (heap e) \<and> same_type (heap e ! a) v
                   then e\<lparr>heap := (heap e)[a := v]\<rparr> else e)"

section \<open>Well-formed states, runs of operations\<close>

text \<open>
  What the types of Python and SQLite guarantee of a state: the keys of the table are
  pairwise distinct (PRIMARY KEY), the keys of the cache dict are pairwise distinct, and a
  cached address is the address of an object.
\<close>

definition wf_state :: "state \<Rightarrow> bool" where
  "wf_state = (\<lambda>(self, e).
     distinct (map fst (rows e)) \<and>
     (case slot_cache self of None \<Rightarrow> True
      | Some c \<Rightarrow> distinct (map fst c) \<and> list_all (\<lambda>kv. snd kv < length (heap e)) c))"

text \<open>\<open>key in self._cache\<close>\<close>

definition cached :: "cupboard \<Rightarrow> pyval \<Rightarrow> bool" where
  "cached self key =
     (case slot_cache self of None \<Rightarrow> False
      | Some c \<Rightarrow> (case key of PStr k \<Rightarrow> k \<in> fst ` set c | _ \<Rightarrow> False))"

text \<open>The cache holds lists and dicts only, and holds something only under writeback.\<close>

definition cache_ok :: "state \<Rightarrow> bool" where
  "cache_ok = (\<lambda>(self, e).
     case slot_cache self of None \<Rightarrow> True
     | Some c \<Rightarrow>
         list_all (\<lambda>kv. snd kv < length (heap e) \<and> is_mutable (heap e ! snd kv)) c
         \<and> (c = [] \<or> writeback self))"

text \<open>Every cached object holds a value that \<open>json.dumps\<close> accepts.\<close>

definition cache_encodable :: "state \<Rightarrow> bool" where
  "cache_encodable = (\<lambda>(self, e).
     case slot_cache self of None \<Rightarrow> True
     | Some c \<Rightarrow>
         list_all (\<lambda>kv. case json_dumps (heap e ! snd kv) of Inl _ \<Rightarrow> False | Inr _ \<Rightarrow> True) c)"

text \<open>
  What a caller can do with a Cupboard and with the objects it holds. A value passed to
  \<open>__setitem__\<close> is an object that exists.
\<close>

datatype op =
    Get pyval | Set pyval addr | Del pyval | Contains pyval | Len | Iter | Sync | Close
  | New pyval | Mutate addr pyval

fun step :: "state \<Rightarrow> op \<Rightarrow> state" where
  "step st (Get k) = snd (getitem st k)"
| "step st (Set k a) = (if a < length (heap (snd st)) then snd (setitem st k a) else st)"
| "step st (Del k) = snd (delitem st k)"
| "step st (Contains k) = snd (contains st k)"
| "step st Len = snd (len st)"
| "step st Iter = snd (iter st)"
| "step st Sync = snd (sync st)"
| "step st Close = snd (close st)"
| "step st (New v) = (fst st, snd (alloc v (snd st)))"
| "step st (Mutate a v) = (fst st, mutate a v (snd st))"

definition run :: "state \<Rightarrow> op list \<Rightarrow> state" where
  "run st ops = foldl step st ops"

text \<open>
  The specification's count for \<open>size()\<close>: the keys set so far, less those deleted
  since. A call that raises sets or deletes nothing.
\<close>

fun live_keys :: "state \<Rightarrow> op list \<Rightarrow> pyval set \<Rightarrow> pyval set" where
  "live_keys st [] K = K"
| "live_keys st (x # xs) K =
     live_keys (step st x) xs
       (case x of
          Set k a \<Rightarrow>
            if a < length (heap (snd st)) \<and> fst (setitem st k a) = Inr () then insert k K else K
        | Del k \<Rightarrow> if fst (delitem st k) = Inr () then K - {k} else K
        | _ \<Rightarrow> K)"

text \<open>
  The operations on an open store that stay within the documented contract of
  \<open>delete\<close> (only strs are keys): every key passed to \<open>delete\<close> is a str, and the
  store is not closed.
\<close>

fun documented :: "op \<Rightarrow> bool" where
  "documented (Del (PStr _)) = True"
| "documented (Del _) = False"
| "documented Close = False"
| "documented _ = True"

text \<open>
  The state of an open store agrees with a set of keys: the cache has no key that the
  table lacks, the keys of the table are pairwise distinct, and they are that set.
\<close>

definition tracks :: "state \<Rightarrow> pyval set \<Rightarrow> bool" where
  "tracks = (\<lambda>(self, e) K.
     (\<exists>c cn. slot_cache self = Some c \<and> slot_conn self = Some cn
        \<and> fst ` set c \<subseteq> fst ` set (rows e))
     \<and> distinct (map fst (rows e))
     \<and> K = PStr ` fst ` set (rows e))"

section \<open>The codec on supported values\<close>

lemma foldl_update_fresh:
  "distinct (map fst (acc @ ps)) \<Longrightarrow>
   foldl (\<lambda>d kv. AList.update (fst kv) (snd kv) d) acc ps = acc @ ps"
proof (induction ps arbitrary: acc)
  case Nil
  then show ?case by simp
next
  case (Cons p ps)
  have fresh: "fst p \<notin> fst ` set acc" using Cons.prems by auto
  have "AList.update (fst p) (snd p) acc = acc @ [p]"
    using fresh by (induction acc) auto
  moreover have "distinct (map fst ((acc @ [p]) @ ps))" using Cons.prems by simp
  ultimately show ?case using Cons.IH [of "acc @ [p]"] by simp
qed

lemma py_dict_distinct: "distinct (map fst ps) \<Longrightarrow> py_dict ps = ps"
  unfolding py_dict_def using foldl_update_fresh [of "[]" ps] by simp

lemma dumps_loads:
  "supported v \<Longrightarrow> \<exists>j. dumps v = Inr j \<and> loads j = v"
  "supported_seq xs \<Longrightarrow> \<exists>js. dumps_seq xs = Inr js \<and> loads_seq js = xs"
  "supported_items kvs \<Longrightarrow> \<exists>ps. dumps_items kvs = Inr ps \<and> loads_items ps = kvs"
proof (induction v and xs and kvs rule: dumps_dumps_seq_dumps_items.induct)
  case (9 kvs)
  then obtain ps where ps: "dumps_items kvs = Inr ps" "loads_items ps = kvs" by auto
  moreover have "distinct (map fst kvs)" using 9 by simp
  ultimately show ?case by (simp add: py_dict_distinct)
next
  case (15 kv kvs)
  from "15.prems" obtain s where s: "fst kv = KStr s"
    by (cases "fst kv") auto
  have kt: "key_text (fst kv) = Inr s" using s by simp
  have "supported (snd kv)" using "15.prems" by simp
  from "15.IH"(1) [OF kt this] obtain j where j: "dumps (snd kv) = Inr j" "loads j = snd kv"
    by blast
  have "supported_items kvs" using "15.prems" by simp
  from "15.IH"(2) [OF kt j(1) this] obtain ps
    where ps: "dumps_items kvs = Inr ps" "loads_items ps = kvs" by blast
  have "(KStr s, snd kv) = kv" using s by (cases kv) simp
  then show ?case using kt j ps by simp
qed auto

lemma select_after_insert: "select_value (insert_or_replace k j t) k = Some j"
  by (simp add: select_value_def insert_or_replace_def map_add_def delete_conv')

lemma dumps_error:
  "dumps v = Inl err \<Longrightarrow> err = UnsupportedValue"
  "dumps_seq xs = Inl err \<Longrightarrow> err = UnsupportedValue"
  "dumps_items kvs = Inl err \<Longrightarrow> err = UnsupportedValue"
proof (induction v and xs and kvs rule: dumps_dumps_seq_dumps_items.induct)
  case (15 kv kvs)
  show ?case
  proof (cases "fst kv")
    case (KOther n)
    then show ?thesis using "15.prems" by simp
  qed (use 15 in \<open>auto split: sum.splits if_splits\<close>)
qed (auto split: sum.splits)

lemma json_dumps_error: "json_dumps v = Inl err \<Longrightarrow> err = UnsupportedValue"
  by (auto simp add: json_dumps_def dumps_error(1) split: sum.splits)

section \<open>Round trip\<close>

text \<open>
  C1. On an open store, whatever the writeback mode, for a text key \<open>k\<close> and an object
  \<open>v\<close> holding a supported value, \<open>set(k, v)\<close> succeeds and the \<open>get(k)\<close> that follows
  returns an object whose value equals that of \<open>v\<close>.
\<close>

theorem set_then_get_roundtrip:
  assumes opened: "slot_cache self = Some c" "slot_conn self = Some cn"
      and obj: "v < length (heap e)" and sup: "supported (heap e ! v)"
  shows "\<exists>st1 a st2. setitem (self, e) (PStr k) v = (Inr (), st1)
           \<and> getitem st1 (PStr k) = (Inr a, st2)
           \<and> a < length (heap (snd st2))
           \<and> heap (snd st2) ! a = heap e ! v"
proof -
  obtain j where j: "dumps (heap e ! v) = Inr j" "loads j = heap e ! v"
    using dumps_loads(1) [OF sup] by blast
  let ?e1 = "e\<lparr>rows := insert_or_replace k (JsonText j) (rows e)\<rparr>"
  show ?thesis
  proof (cases "writeback self \<and> is_mutable (heap e ! v)")
    case True
    let ?self1 = "self\<lparr>slot_cache := Some (AList.update k v (AList.delete k c))\<rparr>"
    have s: "setitem (self, e) (PStr k) v = (Inr (), ?self1, ?e1)"
      using opened j True
      by (simp add: setitem_def json_dumps_def conn_def cache_def update_cache_def)
    have "map_of (AList.update k v (AList.delete k c)) k = Some v"
      by (simp add: update_conv')
    then have g: "getitem (?self1, ?e1) (PStr k) = (Inr v, ?self1, ?e1)"
      by (simp add: getitem_def cache_def)
    show ?thesis using s g obj by simp
  next
    case False
    let ?self1 = "self\<lparr>slot_cache := Some (AList.delete k c)\<rparr>"
    have s: "setitem (self, e) (PStr k) v = (Inr (), ?self1, ?e1)"
      using opened j False
      by (auto simp add: setitem_def json_dumps_def conn_def cache_def update_cache_def)
    have miss: "map_of (AList.delete k c) k = None"
      by (simp add: delete_conv')
    let ?e2 = "?e1\<lparr>heap := heap e @ [heap e ! v]\<rparr>"
    have fresh: "\<not> (writeback ?self1 \<and> is_mutable (heap ?e2 ! length (heap e)))"
      using False by simp
    have u: "update_cache (?self1, ?e2) k (length (heap e))
               = (Inr (), self\<lparr>slot_cache := Some (AList.delete k c)\<rparr>, ?e2)"
      unfolding update_cache_def using fresh by (auto simp add: cache_def delete_idem Let_def)
    have g: "getitem (?self1, ?e1) (PStr k) = (Inr (length (heap e)), ?self1, ?e2)"
      using opened miss j(2) u
      by (simp add: getitem_def cache_def conn_def select_after_insert)
    show ?thesis using s g by simp
  qed
qed

theorem set_then_get_roundtrip_witness:
  "slot_cache \<lparr>writeback = False, slot_cache = Some [], slot_conn = Some 0\<rparr> = Some []
   \<and> slot_conn \<lparr>writeback = False, slot_cache = Some [], slot_conn = Some 0\<rparr> = Some 0
   \<and> (0::nat) < length (heap \<lparr>rows = [], heap = [PList [PInt 1, PStr ''a'']], conns = [True]\<rparr>)
   \<and> supported (heap \<lparr>rows = [], heap = [PList [PInt 1, PStr ''a'']], conns = [True]\<rparr> ! 0)
   \<and> (\<exists>st1 a st2.
        setitem (\<lparr>writeback = False, slot_cache = Some [], slot_conn = Some 0\<rparr>,
                 \<lparr>rows = [], heap = [PList [PInt 1, PStr ''a'']], conns = [True]\<rparr>) (PStr ''foo'') 0
          = (Inr (), st1)
        \<and> getitem st1 (PStr ''foo'') = (Inr a, st2)
        \<and> a < length (heap (snd st2))
        \<and> heap (snd st2) ! a = PList [PInt 1, PStr ''a''])"
  using set_then_get_roundtrip
    [of "\<lparr>writeback = False, slot_cache = Some [], slot_conn = Some 0\<rparr>" "[]" 0 0
        "\<lparr>rows = [], heap = [PList [PInt 1, PStr ''a'']], conns = [True]\<rparr>" "''foo''"]
  by simp

section \<open>Failing writes\<close>

text \<open>
  C5. \<open>set\<close> is atomic on failure: with a key that is not a str it raises InvalidKey,
  and with a str key and a value that \<open>json.dumps\<close> rejects it raises UnsupportedValue;
  in both cases the object, its cache, and the rows of the file are as they were.
\<close>

theorem setitem_atomic_on_failure:
  "((\<forall>k. key \<noteq> PStr k) \<longrightarrow> setitem (self, e) key v = (Inl InvalidKey, self, e))
   \<and> ((\<exists>err. json_dumps (heap e ! v) = Inl err) \<longrightarrow>
        setitem (self, e) (PStr k) v = (Inl UnsupportedValue, self, e))"
proof (intro conjI impI)
  assume "\<forall>k. key \<noteq> PStr k"
  then show "setitem (self, e) key v = (Inl InvalidKey, self, e)"
    by (cases key) (simp_all add: setitem_def)
next
  assume "\<exists>err. json_dumps (heap e ! v) = Inl err"
  then obtain err where "json_dumps (heap e ! v) = Inl err" by blast
  moreover from this have "err = UnsupportedValue" by (rule json_dumps_error)
  ultimately show "setitem (self, e) (PStr k) v = (Inl UnsupportedValue, self, e)"
    by (simp add: setitem_def)
qed

theorem setitem_atomic_on_failure_witness:
  "(\<forall>k. PInt 42 \<noteq> PStr k)
   \<and> setitem (\<lparr>writeback = True, slot_cache = Some [(''k'', 0)], slot_conn = Some 0\<rparr>,
              \<lparr>rows = [(''k'', JsonText (JArr []))], heap = [PList [], PStr ''v'', PObject 7],
               conns = [True]\<rparr>) (PInt 42) 1
       = (Inl InvalidKey, \<lparr>writeback = True, slot_cache = Some [(''k'', 0)], slot_conn = Some 0\<rparr>,
              \<lparr>rows = [(''k'', JsonText (JArr []))], heap = [PList [], PStr ''v'', PObject 7],
               conns = [True]\<rparr>)
   \<and> (\<exists>err. json_dumps (heap \<lparr>rows = [(''k'', JsonText (JArr []))],
                  heap = [PList [], PStr ''v'', PObject 7], conns = [True]\<rparr> ! 2) = Inl err)
   \<and> setitem (\<lparr>writeback = True, slot_cache = Some [(''k'', 0)], slot_conn = Some 0\<rparr>,
              \<lparr>rows = [(''k'', JsonText (JArr []))], heap = [PList [], PStr ''v'', PObject 7],
               conns = [True]\<rparr>) (PStr ''k'') 2
       = (Inl UnsupportedValue, \<lparr>writeback = True, slot_cache = Some [(''k'', 0)], slot_conn = Some 0\<rparr>,
              \<lparr>rows = [(''k'', JsonText (JArr []))], heap = [PList [], PStr ''v'', PObject 7],
               conns = [True]\<rparr>)"
  using setitem_atomic_on_failure
    [of "PInt 42" "\<lparr>writeback = True, slot_cache = Some [(''k'', 0)], slot_conn = Some 0\<rparr>"
        "\<lparr>rows = [(''k'', JsonText (JArr []))], heap = [PList [], PStr ''v'', PObject 7],
          conns = [True]\<rparr>" 1 "''k''"]
    setitem_atomic_on_failure
    [of "PInt 42" "\<lparr>writeback = True, slot_cache = Some [(''k'', 0)], slot_conn = Some 0\<rparr>"
        "\<lparr>rows = [(''k'', JsonText (JArr []))], heap = [PList [], PStr ''v'', PObject 7],
          conns = [True]\<rparr>" 2 "''k''"]
  by (simp add: json_dumps_def setitem_def)

section \<open>Closed handles\<close>

lemma closed_after_close:
  "slot_cache (fst (snd (close st))) = None \<and> slot_conn (fst (snd (close st))) = None"
  by (cases st) (auto simp add: close_def Let_def split: prod.splits sum.splits)

lemma closed_record: "slot_cache self = None \<Longrightarrow> slot_conn self = None \<Longrightarrow>
   self\<lparr>slot_conn := None, slot_cache := None\<rparr> = self"
  by (cases self) simp

lemma close_closed:
  "slot_cache self = None \<Longrightarrow> slot_conn self = None \<Longrightarrow> close (self, e) = (Inr (), self, e)"
  by (simp add: close_def sync_def cache_def closed_record)

lemma closed_ops:
  assumes "slot_cache self = None" "slot_conn self = None"
  shows "getitem (self, e) (PStr k) = (Inl ClosedStoreError, self, e)"
    and "json_dumps (heap e ! v) = Inr j \<Longrightarrow> setitem (self, e) (PStr k) v = (Inl ClosedStoreError, self, e)"
    and "delitem (self, e) key = (Inl ClosedStoreError, self, e)"
    and "iter (self, e) = (Inl ClosedStoreError, self, e)"
    and "len (self, e) = (Inl ClosedStoreError, self, e)"
  using assms by (simp_all add: getitem_def setitem_def delitem_def iter_def len_def cache_def conn_def)

lemma invalid_key: "\<forall>k. key \<noteq> PStr k \<Longrightarrow>
   getitem (self, e) key = (Inl InvalidKey, self, e) \<and> setitem (self, e) key v = (Inl InvalidKey, self, e)"
  by (cases key) (simp_all add: getitem_def setitem_def)

text \<open>
  C3, as amended. After \<open>close()\<close>, \<open>size\<close>, iteration over the keys and \<open>delete\<close>
  (whatever the key) raise ClosedStoreError; \<open>get\<close> raises ClosedStoreError for a str
  key and \<open>set\<close> for a str key with an encodable value. The guards that come before the
  handle is touched still decide first: a key that is not a str gives InvalidKey in
  \<open>get\<close> and \<open>set\<close>, a value that cannot be encoded gives UnsupportedValue in
  \<open>set\<close>. The state is left as it was in every case.
\<close>

theorem closed_store_rejects:
  "close st0 = (r, self, e) \<longrightarrow>
     getitem (self, e) (PStr k) = (Inl ClosedStoreError, self, e)
   \<and> ((\<exists>j. json_dumps (heap e ! v) = Inr j) \<longrightarrow>
         setitem (self, e) (PStr k) v = (Inl ClosedStoreError, self, e))
   \<and> delitem (self, e) key = (Inl ClosedStoreError, self, e)
   \<and> iter (self, e) = (Inl ClosedStoreError, self, e)
   \<and> len (self, e) = (Inl ClosedStoreError, self, e)
   \<and> ((\<forall>k. key \<noteq> PStr k) \<longrightarrow>
         getitem (self, e) key = (Inl InvalidKey, self, e)
       \<and> setitem (self, e) key v = (Inl InvalidKey, self, e))
   \<and> ((\<exists>err. json_dumps (heap e ! v) = Inl err) \<longrightarrow>
         setitem (self, e) (PStr k) v = (Inl UnsupportedValue, self, e))"
proof
  assume c: "close st0 = (r, self, e)"
  have cl: "slot_cache self = None" "slot_conn self = None"
    using closed_after_close [of st0] c by simp_all
  have bad: "(\<exists>err. json_dumps (heap e ! v) = Inl err) \<longrightarrow>
         setitem (self, e) (PStr k) v = (Inl UnsupportedValue, self, e)"
    by (auto simp add: setitem_def dest: json_dumps_error)
  show "getitem (self, e) (PStr k) = (Inl ClosedStoreError, self, e)
   \<and> ((\<exists>j. json_dumps (heap e ! v) = Inr j) \<longrightarrow>
         setitem (self, e) (PStr k) v = (Inl ClosedStoreError, self, e))
   \<and> delitem (self, e) key = (Inl ClosedStoreError, self, e)
   \<and> iter (self, e) = (Inl ClosedStoreError, self, e)
   \<and> len (self, e) = (Inl ClosedStoreError, self, e)
   \<and> ((\<forall>k. key \<noteq> PStr k) \<longrightarrow>
         getitem (self, e) key = (Inl InvalidKey, self, e)
       \<and> setitem (self, e) key v = (Inl InvalidKey, self, e))
   \<and> ((\<exists>err. json_dumps (heap e ! v) = Inl err) \<longrightarrow>
         setitem (self, e) (PStr k) v = (Inl UnsupportedValue, self, e))"
    using closed_ops [OF cl] invalid_key bad by blast
qed

theorem closed_store_rejects_witness:
  "close (\<lparr>writeback = False, slot_cache = Some [], slot_conn = Some 0\<rparr>,
          \<lparr>rows = [(''a'', JsonText (JInt 1))], heap = [PInt 2, PObject 0], conns = [True]\<rparr>)
     = (Inr (), \<lparr>writeback = False, slot_cache = None, slot_conn = None\<rparr>,
        \<lparr>rows = [(''a'', JsonText (JInt 1))], heap = [PInt 2, PObject 0], conns = [False]\<rparr>)
   \<and> (\<exists>j. json_dumps (heap \<lparr>rows = [(''a'', JsonText (JInt 1))], heap = [PInt 2, PObject 0],
                             conns = [False]\<rparr> ! 0) = Inr j)
   \<and> (\<exists>err. json_dumps (heap \<lparr>rows = [(''a'', JsonText (JInt 1))], heap = [PInt 2, PObject 0],
                             conns = [False]\<rparr> ! 1) = Inl err)
   \<and> (\<forall>k. PInt 42 \<noteq> PStr k)
   \<and> fst (getitem (\<lparr>writeback = False, slot_cache = None, slot_conn = None\<rparr>,
        \<lparr>rows = [(''a'', JsonText (JInt 1))], heap = [PInt 2, PObject 0], conns = [False]\<rparr>)
        (PStr ''a'')) = Inl ClosedStoreError
   \<and> fst (setitem (\<lparr>writeback = False, slot_cache = None, slot_conn = None\<rparr>,
        \<lparr>rows = [(''a'', JsonText (JInt 1))], heap = [PInt 2, PObject 0], conns = [False]\<rparr>)
        (PStr ''a'') 0) = Inl ClosedStoreError
   \<and> fst (setitem (\<lparr>writeback = False, slot_cache = None, slot_conn = None\<rparr>,
        \<lparr>rows = [(''a'', JsonText (JInt 1))], heap = [PInt 2, PObject 0], conns = [False]\<rparr>)
        (PStr ''a'') 1) = Inl UnsupportedValue
   \<and> fst (getitem (\<lparr>writeback = False, slot_cache = None, slot_conn = None\<rparr>,
        \<lparr>rows = [(''a'', JsonText (JInt 1))], heap = [PInt 2, PObject 0], conns = [False]\<rparr>)
        (PInt 42)) = Inl InvalidKey
   \<and> fst (delitem (\<lparr>writeback = False, slot_cache = None, slot_conn = None\<rparr>,
        \<lparr>rows = [(''a'', JsonText (JInt 1))], heap = [PInt 2, PObject 0], conns = [False]\<rparr>)
        (PInt 42)) = Inl ClosedStoreError
   \<and> fst (len (\<lparr>writeback = False, slot_cache = None, slot_conn = None\<rparr>,
        \<lparr>rows = [(''a'', JsonText (JInt 1))], heap = [PInt 2, PObject 0], conns = [False]\<rparr>))
        = Inl ClosedStoreError
   \<and> fst (iter (\<lparr>writeback = False, slot_cache = None, slot_conn = None\<rparr>,
        \<lparr>rows = [(''a'', JsonText (JInt 1))], heap = [PInt 2, PObject 0], conns = [False]\<rparr>))
        = Inl ClosedStoreError"
  using closed_store_rejects
    [of "(\<lparr>writeback = False, slot_cache = Some [], slot_conn = Some 0\<rparr>,
          \<lparr>rows = [(''a'', JsonText (JInt 1))], heap = [PInt 2, PObject 0], conns = [True]\<rparr>)"
        "Inr ()" "\<lparr>writeback = False, slot_cache = None, slot_conn = None\<rparr>"
        "\<lparr>rows = [(''a'', JsonText (JInt 1))], heap = [PInt 2, PObject 0], conns = [False]\<rparr>"
        "''a''" 0 "PInt 42"]
    closed_store_rejects
    [of "(\<lparr>writeback = False, slot_cache = Some [], slot_conn = Some 0\<rparr>,
          \<lparr>rows = [(''a'', JsonText (JInt 1))], heap = [PInt 2, PObject 0], conns = [True]\<rparr>)"
        "Inr ()" "\<lparr>writeback = False, slot_cache = None, slot_conn = None\<rparr>"
        "\<lparr>rows = [(''a'', JsonText (JInt 1))], heap = [PInt 2, PObject 0], conns = [False]\<rparr>"
        "''a''" 1 "PInt 42"]
  by (simp add: close_def sync_def cache_def conn_def json_dumps_def)

text \<open>C3 as stated fails: on a closed store \<open>get(42)\<close> does not raise
  ClosedStoreError (it raises InvalidKey).\<close>

theorem closed_get_int_key_counterexample:
  "fst (getitem (snd (close (\<lparr>writeback = False, slot_cache = Some [], slot_conn = Some 0\<rparr>,
                            \<lparr>rows = [], heap = [], conns = [True]\<rparr>))) (PInt 42))
     \<noteq> Inl ClosedStoreError"
  by (simp add: close_def sync_def cache_def conn_def getitem_def)

section \<open>Absent keys\<close>

text \<open>
  C6, as amended. On an open store, for a str key \<open>k\<close> that is neither a key of the
  table nor a key of the cache: \<open>get(k)\<close> raises KeyNotFound, \<open>delete(k)\<close> returns
  normally and \<open>contains(k)\<close> is false, each leaving the state as it was.
\<close>

theorem absent_text_key:
  assumes "slot_cache self = Some c" "slot_conn self = Some cn"
      and "k \<notin> fst ` set (rows e)" "k \<notin> fst ` set c"
  shows "getitem (self, e) (PStr k) = (Inl KeyNotFound, self, e)
       \<and> delitem (self, e) (PStr k) = (Inr (), self, e)
       \<and> contains (self, e) (PStr k) = (Inr False, self, e)"
proof -
  have m: "map_of c k = None" "map_of (rows e) k = None"
    using assms(3,4) by (simp_all add: map_of_eq_None_iff)
  have g: "getitem (self, e) (PStr k) = (Inl KeyNotFound, self, e)"
    using assms(1,2) m by (simp add: getitem_def cache_def conn_def select_value_def)
  have "self\<lparr>slot_cache := Some c\<rparr> = self" using assms(1) by (cases self) simp
  then have d: "delitem (self, e) (PStr k) = (Inr (), self, e)"
    using assms by (simp add: delitem_def cache_def conn_def delete_where_def)
  show ?thesis using g d by (simp add: contains_def)
qed

theorem absent_text_key_witness:
  "slot_cache \<lparr>writeback = True, slot_cache = Some [(''a'', 0)], slot_conn = Some 0\<rparr> = Some [(''a'', 0)]
   \<and> slot_conn \<lparr>writeback = True, slot_cache = Some [(''a'', 0)], slot_conn = Some 0\<rparr> = Some 0
   \<and> ''b'' \<notin> fst ` set (rows \<lparr>rows = [(''a'', JsonText (JArr []))], heap = [PList []], conns = [True]\<rparr>)
   \<and> ''b'' \<notin> fst ` set [(''a'', 0::nat)]
   \<and> getitem (\<lparr>writeback = True, slot_cache = Some [(''a'', 0)], slot_conn = Some 0\<rparr>,
              \<lparr>rows = [(''a'', JsonText (JArr []))], heap = [PList []], conns = [True]\<rparr>) (PStr ''b'')
       = (Inl KeyNotFound, \<lparr>writeback = True, slot_cache = Some [(''a'', 0)], slot_conn = Some 0\<rparr>,
              \<lparr>rows = [(''a'', JsonText (JArr []))], heap = [PList []], conns = [True]\<rparr>)
   \<and> delitem (\<lparr>writeback = True, slot_cache = Some [(''a'', 0)], slot_conn = Some 0\<rparr>,
              \<lparr>rows = [(''a'', JsonText (JArr []))], heap = [PList []], conns = [True]\<rparr>) (PStr ''b'')
       = (Inr (), \<lparr>writeback = True, slot_cache = Some [(''a'', 0)], slot_conn = Some 0\<rparr>,
              \<lparr>rows = [(''a'', JsonText (JArr []))], heap = [PList []], conns = [True]\<rparr>)
   \<and> contains (\<lparr>writeback = True, slot_cache = Some [(''a'', 0)], slot_conn = Some 0\<rparr>,
              \<lparr>rows = [(''a'', JsonText (JArr []))], heap = [PList []], conns = [True]\<rparr>) (PStr ''b'')
       = (Inr False, \<lparr>writeback = True, slot_cache = Some [(''a'', 0)], slot_conn = Some 0\<rparr>,
              \<lparr>rows = [(''a'', JsonText (JArr []))], heap = [PList []], conns = [True]\<rparr>)"
  using absent_text_key
    [of "\<lparr>writeback = True, slot_cache = Some [(''a'', 0)], slot_conn = Some 0\<rparr>" "[(''a'', 0)]" 0
        "''b''" "\<lparr>rows = [(''a'', JsonText (JArr []))], heap = [PList []], conns = [True]\<rparr>"]
  by simp

text \<open>C6 as stated fails: 42 is no key of an empty store, and \<open>get(42)\<close> does not
  raise KeyNotFound (it raises InvalidKey).\<close>

theorem absent_int_key_counterexample:
  "fst (getitem (\<lparr>writeback = False, slot_cache = Some [], slot_conn = Some 0\<rparr>,
                 \<lparr>rows = [], heap = [], conns = [True]\<rparr>) (PInt 42)) \<noteq> Inl KeyNotFound"
  by (simp add: getitem_def)

section \<open>Closing\<close>

lemma sync_error:
  "sync_loop c h t = Inl err \<Longrightarrow> err = UnsupportedValue"
  by (induction c h t rule: sync_loop.induct) (auto split: sum.splits dest: json_dumps_error)

lemma sync_open_result:
  assumes "slot_cache self = Some c" "slot_conn self = Some cn"
  shows "(\<exists>t. sync (self, e) = (Inr (), self, e\<lparr>rows := t\<rparr>))
       \<or> sync (self, e) = (Inl UnsupportedValue, self, e)"
proof (cases "c = []")
  case True
  have "e\<lparr>rows := rows e\<rparr> = e" by simp
  then have "sync (self, e) = (Inr (), self, e\<lparr>rows := rows e\<rparr>)"
    using assms True by (simp add: sync_def cache_def)
  then show ?thesis by blast
next
  case False
  show ?thesis
  proof (cases "sync_loop c (heap e) (rows e)")
    case (Inl err)
    then have "err = UnsupportedValue" by (rule sync_error)
    then show ?thesis using assms False Inl by (simp add: sync_def cache_def conn_def)
  next
    case (Inr t)
    then have "sync (self, e) = (Inr (), self, e\<lparr>rows := t\<rparr>)"
      using assms False by (simp add: sync_def cache_def conn_def)
    then show ?thesis by blast
  qed
qed

text \<open>
  C8, as amended. \<open>close()\<close> is idempotent. A first \<open>close()\<close> on an open store whose
  \<open>sync()\<close> returns normally leaves the rows as \<open>sync()\<close> left them, closes the
  connection, clears both slots and returns normally. A \<open>close()\<close> after any
  \<open>close()\<close> returns normally and changes nothing: no row, no object, no connection.
\<close>

theorem close_idempotent:
  "(slot_cache self = Some c \<and> slot_conn self = Some cn \<and> sync (self, e) = (Inr (), self1, e1)
      \<longrightarrow> close (self, e) =
            (Inr (), self\<lparr>slot_conn := None, slot_cache := None\<rparr>,
             e1\<lparr>conns := (conns e1)[cn := False]\<rparr>))
   \<and> close (snd (close st)) = (Inr (), snd (close st))"
proof (intro conjI impI)
  assume a: "slot_cache self = Some c \<and> slot_conn self = Some cn
               \<and> sync (self, e) = (Inr (), self1, e1)"
  then have "self1 = self"
    using sync_open_result [of self c cn e] by auto
  then show "close (self, e) =
            (Inr (), self\<lparr>slot_conn := None, slot_cache := None\<rparr>,
             e1\<lparr>conns := (conns e1)[cn := False]\<rparr>)"
    using a by (simp add: close_def conn_def)
next
  obtain r self' e' where c: "close st = (r, self', e')" by (cases "close st") auto
  have "slot_cache self' = None" "slot_conn self' = None"
    using closed_after_close [of st] c by simp_all
  then show "close (snd (close st)) = (Inr (), snd (close st))"
    using c by (simp add: close_closed)
qed

theorem close_idempotent_witness:
  "slot_cache \<lparr>writeback = True, slot_cache = Some [(''x'', 0)], slot_conn = Some 0\<rparr> = Some [(''x'', 0)]
   \<and> slot_conn \<lparr>writeback = True, slot_cache = Some [(''x'', 0)], slot_conn = Some 0\<rparr> = Some 0
   \<and> sync (\<lparr>writeback = True, slot_cache = Some [(''x'', 0)], slot_conn = Some 0\<rparr>,
            \<lparr>rows = [(''x'', JsonText (JArr []))], heap = [PList [PInt 1]], conns = [True]\<rparr>)
       = (Inr (), \<lparr>writeback = True, slot_cache = Some [(''x'', 0)], slot_conn = Some 0\<rparr>,
            \<lparr>rows = [(''x'', JsonText (JArr [JInt 1]))], heap = [PList [PInt 1]], conns = [True]\<rparr>)
   \<and> close (\<lparr>writeback = True, slot_cache = Some [(''x'', 0)], slot_conn = Some 0\<rparr>,
            \<lparr>rows = [(''x'', JsonText (JArr []))], heap = [PList [PInt 1]], conns = [True]\<rparr>)
       = (Inr (), \<lparr>writeback = True, slot_cache = None, slot_conn = None\<rparr>,
            \<lparr>rows = [(''x'', JsonText (JArr [JInt 1]))], heap = [PList [PInt 1]], conns = [False]\<rparr>)
   \<and> close (\<lparr>writeback = True, slot_cache = None, slot_conn = None\<rparr>,
            \<lparr>rows = [(''x'', JsonText (JArr [JInt 1]))], heap = [PList [PInt 1]], conns = [False]\<rparr>)
       = (Inr (), \<lparr>writeback = True, slot_cache = None, slot_conn = None\<rparr>,
            \<lparr>rows = [(''x'', JsonText (JArr [JInt 1]))], heap = [PList [PInt 1]], conns = [False]\<rparr>)"
proof -
  let ?self = "\<lparr>writeback = True, slot_cache = Some [(''x'', 0)], slot_conn = Some 0\<rparr>"
  let ?e = "\<lparr>rows = [(''x'', JsonText (JArr []))], heap = [PList [PInt 1]], conns = [True]\<rparr>"
  let ?e1 = "\<lparr>rows = [(''x'', JsonText (JArr [JInt 1]))], heap = [PList [PInt 1]], conns = [True]\<rparr>"
  have s: "sync (?self, ?e) = (Inr (), ?self, ?e1)"
    by (simp add: sync_def cache_def conn_def json_dumps_def insert_or_replace_def)
  have h: "slot_cache ?self = Some [(''x'', 0)] \<and> slot_conn ?self = Some 0
             \<and> sync (?self, ?e) = (Inr (), ?self, ?e1)"
    using s by simp
  note ci = close_idempotent [of ?self "[(''x'', 0)]" 0 ?e ?self ?e1 "(?self, ?e)"]
  have c1: "close (?self, ?e) =
      (Inr (), \<lparr>writeback = True, slot_cache = None, slot_conn = None\<rparr>,
       \<lparr>rows = [(''x'', JsonText (JArr [JInt 1]))], heap = [PList [PInt 1]], conns = [False]\<rparr>)"
    using ci h by simp
  have c2: "close (snd (close (?self, ?e))) = (Inr (), snd (close (?self, ?e)))"
    using ci by blast
  show ?thesis using h c1 c2 [unfolded c1] by simp
qed

text \<open>C8 as stated fails: after \<open>db['x'] = v\<close> under writeback and a mutation of
  \<open>v\<close> that json cannot encode, the first \<open>close()\<close> raises and the connection is
  still open.\<close>

theorem close_sync_raises_counterexample:
  "fst (close (run (\<lparr>writeback = True, slot_cache = Some [], slot_conn = Some 0\<rparr>,
                    \<lparr>rows = [], heap = [], conns = [True]\<rparr>)
                   [New (PList []), Set (PStr ''x'') 0, Mutate 0 (PList [PObject 0])]))
     = Inl UnsupportedValue
   \<and> conns (snd (snd (close (run (\<lparr>writeback = True, slot_cache = Some [], slot_conn = Some 0\<rparr>,
                    \<lparr>rows = [], heap = [], conns = [True]\<rparr>)
                   [New (PList []), Set (PStr ''x'') 0, Mutate 0 (PList [PObject 0])]))))
     = [True]"
  by code_simp

lemma closed_step:
  assumes "slot_cache (fst st) = None" "slot_conn (fst st) = None"
  shows "fst (step st x) = fst st \<and> rows (snd (step st x)) = rows (snd st)
       \<and> conns (snd (step st x)) = conns (snd st)"
proof -
  obtain self e where st: "st = (self, e)" by (cases st)
  have cl: "slot_cache self = None" "slot_conn self = None" using assms st by simp_all
  show ?thesis
  proof (cases x)
    case (Get key)
    then show ?thesis using st cl by (cases key) (simp_all add: getitem_def cache_def)
  next
    case (Set key a)
    then show ?thesis using st cl
      by (cases key) (simp_all add: setitem_def conn_def split: sum.splits)
  next
    case (Del key)
    then show ?thesis using st closed_ops(3) [OF cl] by simp
  next
    case (Contains key)
    then show ?thesis using st cl
      by (cases key) (simp_all add: contains_def getitem_def cache_def)
  next
    case Len
    then show ?thesis using st closed_ops(5) [OF cl] by simp
  next
    case Iter
    then show ?thesis using st closed_ops(4) [OF cl] by simp
  next
    case Sync
    then show ?thesis using st cl by (simp add: sync_def cache_def)
  next
    case Close
    then show ?thesis using st close_closed [OF cl] by simp
  next
    case (New v)
    then show ?thesis using st by (simp add: alloc_def)
  next
    case (Mutate a v)
    then show ?thesis using st by (simp add: mutate_def)
  qed
qed

lemma closed_run:
  "slot_cache (fst st) = None \<Longrightarrow> slot_conn (fst st) = None \<Longrightarrow>
   fst (run st ops) = fst st \<and> rows (snd (run st ops)) = rows (snd st)
     \<and> conns (snd (run st ops)) = conns (snd st)"
proof (induction ops arbitrary: st)
  case Nil
  then show ?case by (simp add: run_def)
next
  case (Cons x xs)
  have s: "fst (step st x) = fst st \<and> rows (snd (step st x)) = rows (snd st)
       \<and> conns (snd (step st x)) = conns (snd st)"
    using closed_step [OF Cons.prems] .
  then have "slot_cache (fst (step st x)) = None" "slot_conn (fst (step st x)) = None"
    using Cons.prems by simp_all
  from Cons.IH [OF this] s show ?case by (simp add: run_def)
qed

text \<open>
  C10, as amended. When \<open>sync()\<close> raises on an open store, \<open>close()\<close> raises the
  same exception (an UnsupportedValue), clears both slots and leaves rows and
  connections as they were: \<open>Connection.close()\<close> has not been called, and whatever the
  caller does with the handle afterwards does not call it. On the closed handle,
  \<open>size\<close>, iteration, \<open>delete\<close>, \<open>get\<close> with a str key and \<open>set\<close> with a str
  key and an encodable value raise ClosedStoreError, and \<open>close()\<close> returns normally,
  changing nothing.
\<close>

theorem close_when_sync_raises:
  assumes opened: "slot_cache self = Some c" "slot_conn self = Some cn"
      and fails: "fst (sync (self, e)) = Inl err"
  shows "close (self, e) = (Inl err, self\<lparr>slot_conn := None, slot_cache := None\<rparr>, e)
       \<and> err = UnsupportedValue
       \<and> (\<forall>ops. conns (snd (run (self\<lparr>slot_conn := None, slot_cache := None\<rparr>, e) ops)) = conns e
               \<and> rows (snd (run (self\<lparr>slot_conn := None, slot_cache := None\<rparr>, e) ops)) = rows e
               \<and> fst (run (self\<lparr>slot_conn := None, slot_cache := None\<rparr>, e) ops)
                   = self\<lparr>slot_conn := None, slot_cache := None\<rparr>)
       \<and> (\<forall>e' k v key.
             getitem (self\<lparr>slot_conn := None, slot_cache := None\<rparr>, e') (PStr k)
               = (Inl ClosedStoreError, self\<lparr>slot_conn := None, slot_cache := None\<rparr>, e')
           \<and> ((\<exists>j. json_dumps (heap e' ! v) = Inr j) \<longrightarrow>
               setitem (self\<lparr>slot_conn := None, slot_cache := None\<rparr>, e') (PStr k) v
                 = (Inl ClosedStoreError, self\<lparr>slot_conn := None, slot_cache := None\<rparr>, e'))
           \<and> delitem (self\<lparr>slot_conn := None, slot_cache := None\<rparr>, e') key
               = (Inl ClosedStoreError, self\<lparr>slot_conn := None, slot_cache := None\<rparr>, e')
           \<and> iter (self\<lparr>slot_conn := None, slot_cache := None\<rparr>, e')
               = (Inl ClosedStoreError, self\<lparr>slot_conn := None, slot_cache := None\<rparr>, e')
           \<and> len (self\<lparr>slot_conn := None, slot_cache := None\<rparr>, e')
               = (Inl ClosedStoreError, self\<lparr>slot_conn := None, slot_cache := None\<rparr>, e')
           \<and> close (self\<lparr>slot_conn := None, slot_cache := None\<rparr>, e')
               = (Inr (), self\<lparr>slot_conn := None, slot_cache := None\<rparr>, e'))"
proof -
  let ?closed = "self\<lparr>slot_conn := None, slot_cache := None\<rparr>"
  have s: "sync (self, e) = (Inl UnsupportedValue, self, e)" and err: "err = UnsupportedValue"
    using sync_open_result [OF opened, of e] fails by auto
  have c: "close (self, e) = (Inl err, ?closed, e)"
    using s err by (simp add: close_def)
  have cl: "slot_cache ?closed = None" "slot_conn ?closed = None" by simp_all
  have r: "\<And>ops. conns (snd (run (?closed, e) ops)) = conns e
               \<and> rows (snd (run (?closed, e) ops)) = rows e
               \<and> fst (run (?closed, e) ops) = ?closed"
    using closed_run [of "(?closed, e)"] by simp
  show ?thesis
    using c err r closed_ops [OF cl] close_closed [OF cl] by blast
qed

theorem close_when_sync_raises_witness:
  "slot_cache \<lparr>writeback = True, slot_cache = Some [(''x'', 0)], slot_conn = Some 0\<rparr> = Some [(''x'', 0)]
   \<and> slot_conn \<lparr>writeback = True, slot_cache = Some [(''x'', 0)], slot_conn = Some 0\<rparr> = Some 0
   \<and> fst (sync (\<lparr>writeback = True, slot_cache = Some [(''x'', 0)], slot_conn = Some 0\<rparr>,
            \<lparr>rows = [(''x'', JsonText (JArr []))], heap = [PList [PObject 0]], conns = [True]\<rparr>))
       = Inl UnsupportedValue
   \<and> close (\<lparr>writeback = True, slot_cache = Some [(''x'', 0)], slot_conn = Some 0\<rparr>,
            \<lparr>rows = [(''x'', JsonText (JArr []))], heap = [PList [PObject 0]], conns = [True]\<rparr>)
       = (Inl UnsupportedValue, \<lparr>writeback = True, slot_cache = None, slot_conn = None\<rparr>,
            \<lparr>rows = [(''x'', JsonText (JArr []))], heap = [PList [PObject 0]], conns = [True]\<rparr>)
   \<and> conns (snd (run (\<lparr>writeback = True, slot_cache = None, slot_conn = None\<rparr>,
            \<lparr>rows = [(''x'', JsonText (JArr []))], heap = [PList [PObject 0]], conns = [True]\<rparr>)
            [Close, Get (PStr ''x''), Len, Close])) = [True]
   \<and> (\<exists>j. json_dumps (heap \<lparr>rows = [], heap = [PInt 1], conns = [True]\<rparr> ! 0) = Inr j)
   \<and> setitem (\<lparr>writeback = True, slot_cache = None, slot_conn = None\<rparr>,
              \<lparr>rows = [], heap = [PInt 1], conns = [True]\<rparr>) (PStr ''x'') 0
       = (Inl ClosedStoreError, \<lparr>writeback = True, slot_cache = None, slot_conn = None\<rparr>,
              \<lparr>rows = [], heap = [PInt 1], conns = [True]\<rparr>)"
proof -
  let ?self = "\<lparr>writeback = True, slot_cache = Some [(''x'', 0)], slot_conn = Some 0\<rparr>"
  let ?e = "\<lparr>rows = [(''x'', JsonText (JArr []))], heap = [PList [PObject 0]], conns = [True]\<rparr>"
  have h1: "slot_cache ?self = Some [(''x'', 0)]" and h2: "slot_conn ?self = Some 0" by simp_all
  have h3: "fst (sync (?self, ?e)) = Inl UnsupportedValue"
    by (simp add: sync_def cache_def conn_def json_dumps_def)
  have h4: "\<exists>j. json_dumps (heap \<lparr>rows = [], heap = [PInt 1], conns = [True]\<rparr> ! 0) = Inr j"
    by (simp add: json_dumps_def)
  have c: "?self\<lparr>slot_conn := None, slot_cache := None\<rparr>
             = \<lparr>writeback = True, slot_cache = None, slot_conn = None\<rparr>" by simp
  note t = close_when_sync_raises [OF h1 h2 h3]
  have a: "close (?self, ?e)
      = (Inl UnsupportedValue, \<lparr>writeback = True, slot_cache = None, slot_conn = None\<rparr>, ?e)"
    using t [THEN conjunct1] by simp
  have b: "conns (snd (run (\<lparr>writeback = True, slot_cache = None, slot_conn = None\<rparr>, ?e)
            [Close, Get (PStr ''x''), Len, Close])) = [True]"
    using t [THEN conjunct2, THEN conjunct2, THEN conjunct1, THEN spec,
             of "[Close, Get (PStr ''x''), Len, Close]"] by simp
  have d: "setitem (\<lparr>writeback = True, slot_cache = None, slot_conn = None\<rparr>,
              \<lparr>rows = [], heap = [PInt 1], conns = [True]\<rparr>) (PStr ''x'') 0
       = (Inl ClosedStoreError, \<lparr>writeback = True, slot_cache = None, slot_conn = None\<rparr>,
              \<lparr>rows = [], heap = [PInt 1], conns = [True]\<rparr>)"
    using t [THEN conjunct2, THEN conjunct2, THEN conjunct2, THEN spec, THEN spec, THEN spec,
             THEN spec, of "\<lparr>rows = [], heap = [PInt 1], conns = [True]\<rparr>" "''x''" 0 PNone] h4
    by simp
  show ?thesis using h1 h2 h3 h4 a b d by simp
qed

text \<open>C10 as stated fails in one clause: after the \<open>close()\<close> that raised,
  \<open>get(42)\<close> does not raise ClosedStoreError (it raises InvalidKey).\<close>

theorem failed_close_get_int_key_counterexample:
  "fst (close (run (\<lparr>writeback = True, slot_cache = Some [], slot_conn = Some 0\<rparr>,
                    \<lparr>rows = [], heap = [], conns = [True]\<rparr>)
                   [New (PList []), Set (PStr ''x'') 0, Mutate 0 (PList [PObject 0])]))
     = Inl UnsupportedValue
   \<and> fst (getitem (snd (close (run (\<lparr>writeback = True, slot_cache = Some [], slot_conn = Some 0\<rparr>,
                    \<lparr>rows = [], heap = [], conns = [True]\<rparr>)
                   [New (PList []), Set (PStr ''x'') 0, Mutate 0 (PList [PObject 0])]))) (PInt 42))
     \<noteq> Inl ClosedStoreError"
  by code_simp

section \<open>Deleting with a key that is not a str\<close>

text \<open>\<open>delete\<close> has no guard on the type of its key: whatever the state and the key,
  it does not raise InvalidKey.\<close>

lemma delitem_never_invalid_key: "fst (delitem st key) \<noteq> Inl InvalidKey"
proof -
  obtain self e where st: "st = (self, e)" by (cases st)
  have b: "\<And>err. sqlite_bind key = Inl err \<Longrightarrow> err \<noteq> InvalidKey"
    by (cases key) (auto split: if_splits)
  have p: "\<And>c err. cache_pop key c = Inl err \<Longrightarrow> err \<noteq> InvalidKey"
    by (cases key) (auto split: if_splits)
  show ?thesis using st b p
    by (auto simp add: delitem_def conn_def cache_def Let_def split: option.splits sum.splits)
qed

text \<open>
  C9 fails on the code. Under writeback, after \<open>db['42'] = []\<close>, the call
  \<open>del db[42]\<close> returns normally (no InvalidKey, as the claim says) but is no no-op:
  SQLite compares the int with the key column as the text \<open>42\<close>, so the row of the
  str key is deleted, while the cache keeps its entry for that key.
\<close>

theorem delitem_int_key_removes_row:
  "run (\<lparr>writeback = True, slot_cache = Some [], slot_conn = Some 0\<rparr>,
        \<lparr>rows = [], heap = [], conns = [True]\<rparr>)
       [New (PList []), Set (PStr ''42'') 0]
     = (\<lparr>writeback = True, slot_cache = Some [(''42'', 0)], slot_conn = Some 0\<rparr>,
        \<lparr>rows = [(''42'', JsonText (JArr []))], heap = [PList []], conns = [True]\<rparr>)
   \<and> delitem (\<lparr>writeback = True, slot_cache = Some [(''42'', 0)], slot_conn = Some 0\<rparr>,
        \<lparr>rows = [(''42'', JsonText (JArr []))], heap = [PList []], conns = [True]\<rparr>) (PInt 42)
     = (Inr (), \<lparr>writeback = True, slot_cache = Some [(''42'', 0)], slot_conn = Some 0\<rparr>,
        \<lparr>rows = [], heap = [PList []], conns = [True]\<rparr>)"
  by code_simp

text \<open>The same with a key that sqlite3 adapts: \<open>del db[date(2020, 1, 1)]\<close> deletes the
  row whose key is the text \<open>2020-01-01\<close>.\<close>

lemma delitem_date_key_removes_row:
  "delitem (\<lparr>writeback = False, slot_cache = Some [], slot_conn = Some 0\<rparr>,
        \<lparr>rows = [(''2020-01-01'', JsonText (JInt 1))], heap = [], conns = [True]\<rparr>)
       (PAdapted (SqlText ''2020-01-01'') True)
     = (Inr (), \<lparr>writeback = False, slot_cache = Some [], slot_conn = Some 0\<rparr>,
        \<lparr>rows = [], heap = [], conns = [True]\<rparr>)"
  by code_simp

section \<open>The cache invariant\<close>

lemma list_all_delete: "list_all P c \<Longrightarrow> list_all P (AList.delete k c)"
  by (simp add: AList.delete_eq list_all_iff)

lemma list_all_update: "list_all P c \<Longrightarrow> P (k, v) \<Longrightarrow> list_all P (AList.update k v c)"
  by (induction c) auto

lemma delete_Nil_or: "AList.delete k c = [] \<or> c \<noteq> []"
  by (cases c) simp_all

lemma update_cache_ok:
  assumes ok: "cache_ok (self, e)" and a: "a < length (heap e)"
  shows "cache_ok (snd (update_cache (self, e) k a))"
proof (cases "slot_cache self")
  case None
  then show ?thesis using ok by (simp add: update_cache_def cache_def)
next
  case (Some c)
  let ?P = "\<lambda>kv. snd kv < length (heap e) \<and> is_mutable (heap e ! snd kv)"
  have c: "list_all ?P c" "c = [] \<or> writeback self"
    using ok Some by (simp_all add: cache_ok_def)
  have d: "list_all ?P (AList.delete k c)" using c(1) by (rule list_all_delete)
  have n: "AList.delete k c = [] \<or> writeback self"
    using c(2) delete_Nil_or [of k c] by blast
  show ?thesis
  proof (cases "writeback self \<and> is_mutable (heap e ! a)")
    case True
    then have "list_all ?P (AList.update k a (AList.delete k c))"
      using d a by (intro list_all_update) simp_all
    then show ?thesis using Some True
      by (simp add: update_cache_def cache_def cache_ok_def)
  next
    case False
    then show ?thesis using Some d n
      by (auto simp add: update_cache_def cache_def cache_ok_def)
  qed
qed

lemma cache_ok_alloc:
  assumes "cache_ok (self, e)"
  shows "cache_ok (self, e\<lparr>heap := heap e @ [v]\<rparr>)"
proof (cases "slot_cache self")
  case None
  then show ?thesis by (simp add: cache_ok_def)
next
  case (Some c)
  then show ?thesis using assms
    by (auto simp add: cache_ok_def list_all_iff nth_append)
qed

lemma cache_ok_rows: "cache_ok (self, e\<lparr>rows := t\<rparr>) = cache_ok (self, e)"
  by (simp add: cache_ok_def split: option.splits)

lemma same_type_mutable: "same_type u v \<Longrightarrow> is_mutable v"
  by (cases u; cases v) simp_all

lemma cache_ok_mutate:
  assumes "cache_ok (self, e)"
  shows "cache_ok (self, mutate a v e)"
proof (cases "slot_cache self")
  case None
  then show ?thesis by (simp add: cache_ok_def)
next
  case (Some c)
  show ?thesis
  proof (cases "a < length (heap e) \<and> same_type (heap e ! a) v")
    case True
    then have m: "is_mutable v" using same_type_mutable by blast
    have "\<And>b. b < length (heap e) \<Longrightarrow> is_mutable (heap e ! b)
        \<Longrightarrow> is_mutable ((heap e)[a := v] ! b)"
      using m True by (simp add: nth_list_update)
    then show ?thesis using assms Some True
      by (auto simp add: cache_ok_def mutate_def list_all_iff)
  next
    case False
    then show ?thesis using assms by (auto simp add: mutate_def)
  qed
qed

lemma getitem_cache_ok:
  assumes "cache_ok (self, e)"
  shows "cache_ok (snd (getitem (self, e) key))"
proof (cases key)
  case (PStr k)
  show ?thesis
  proof (cases "getitem (self, e) key = (fst (getitem (self, e) key), self, e)")
    case True
    then show ?thesis using assms by (metis snd_conv)
  next
    case False
    then obtain c cn jstr v where
      g: "slot_cache self = Some c" "map_of c k = None" "slot_conn self = Some cn"
         "select_value (rows e) k = Some jstr" "json_loads jstr = Inr v"
      using PStr
      by (auto simp add: getitem_def cache_def conn_def split: option.splits sum.splits)
    let ?e1 = "e\<lparr>heap := heap e @ [v]\<rparr>"
    have "snd (getitem (self, e) key) = snd (update_cache (self, ?e1) k (length (heap e)))"
      using PStr g by (auto simp add: getitem_def cache_def conn_def Let_def split: prod.splits sum.splits)
    moreover have "cache_ok (snd (update_cache (self, ?e1) k (length (heap e))))"
      using cache_ok_alloc [OF assms] by (intro update_cache_ok) simp_all
    ultimately show ?thesis by simp
  qed
qed (use assms in \<open>simp_all add: getitem_def\<close>)

lemma setitem_cache_ok:
  assumes "cache_ok (self, e)" "a < length (heap e)"
  shows "cache_ok (snd (setitem (self, e) key a))"
proof (cases key)
  case (PStr k)
  show ?thesis
  proof (cases "json_dumps (heap e ! a)")
    case (Inl err)
    then show ?thesis using assms PStr by (simp add: setitem_def)
  next
    case (Inr jstr)
    show ?thesis
    proof (cases "slot_conn self")
      case None
      then show ?thesis using assms PStr Inr by (simp add: setitem_def conn_def)
    next
      case (Some cn)
      let ?e1 = "e\<lparr>rows := insert_or_replace k jstr (rows e)\<rparr>"
      have "cache_ok (snd (update_cache (self, ?e1) k a))"
        using assms by (intro update_cache_ok) (simp_all add: cache_ok_rows)
      then show ?thesis using PStr Inr Some by (simp add: setitem_def conn_def)
    qed
  qed
qed (use assms in \<open>simp_all add: setitem_def\<close>)

lemma cache_pop_all: "cache_pop key c = Inr c1 \<Longrightarrow> list_all P c \<Longrightarrow> list_all P c1"
  by (cases key) (auto simp add: list_all_delete split: if_splits)

lemma cache_pop_Nil: "cache_pop key c = Inr c1 \<Longrightarrow> c1 = [] \<or> c \<noteq> []"
  using delete_Nil_or by (cases key) (auto split: if_splits)

lemma delitem_cache_ok:
  assumes "cache_ok (self, e)"
  shows "cache_ok (snd (delitem (self, e) key))"
proof -
  have r: "\<And>t. cache_ok (self, e\<lparr>rows := t\<rparr>)" using assms by (simp add: cache_ok_rows)
  have p: "\<And>c c1 t. slot_cache self = Some c \<Longrightarrow> cache_pop key c = Inr c1
      \<Longrightarrow> cache_ok (self\<lparr>slot_cache := Some c1\<rparr>, e\<lparr>rows := t\<rparr>)"
    using assms cache_pop_all cache_pop_Nil
    by (fastforce simp add: cache_ok_def)
  show ?thesis using assms r p
    by (auto simp add: delitem_def conn_def cache_def Let_def split: option.splits sum.splits)
qed

lemma contains_state: "snd (contains st key) = snd (getitem st key)"
  by (auto simp add: contains_def split: prod.splits sum.splits error.splits)

lemma sync_cache_ok: "cache_ok (self, e) \<Longrightarrow> cache_ok (snd (sync (self, e)))"
  by (auto simp add: sync_def cache_ok_rows split: sum.splits)

lemma close_cache_ok: "cache_ok (snd (close st))"
  using closed_after_close [of st] by (cases "close st") (auto simp add: cache_ok_def)

lemma step_cache_ok:
  assumes "cache_ok st"
  shows "cache_ok (step st x)"
proof -
  obtain self e where st: "st = (self, e)" by (cases st)
  show ?thesis
  proof (cases x)
    case (Get k)
    then show ?thesis using assms st getitem_cache_ok by simp
  next
    case (Set k a)
    then show ?thesis using assms st setitem_cache_ok by simp
  next
    case (Del k)
    then show ?thesis using assms st delitem_cache_ok by simp
  next
    case (Contains k)
    then show ?thesis using assms st getitem_cache_ok by (simp add: contains_state)
  next
    case Len
    then show ?thesis using assms st by (auto simp add: len_def split: sum.splits)
  next
    case Iter
    then show ?thesis using assms st by (auto simp add: iter_def split: sum.splits)
  next
    case Sync
    then show ?thesis using assms st sync_cache_ok by simp
  next
    case Close
    then show ?thesis using close_cache_ok by simp
  next
    case (New v)
    then show ?thesis using assms st cache_ok_alloc by (simp add: alloc_def)
  next
    case (Mutate a v)
    then show ?thesis using assms st cache_ok_mutate by simp
  qed
qed

lemma run_cache_ok: "cache_ok st \<Longrightarrow> cache_ok (run st ops)"
  by (induction ops arbitrary: st) (simp_all add: run_def step_cache_ok)

lemma not_cached_delete: "\<not> cached (self\<lparr>slot_cache := Some (AList.delete k c)\<rparr>) (PStr k)"
  by (simp add: cached_def delete_notin_dom)

text \<open>
  C4. In every state reached from \<open>open\<close> by operations of the Cupboard and by the
  caller creating objects or changing lists and dicts in place, every cache entry is the
  address of a list or a dict, and the cache is empty unless writeback is on. In such a
  state a key is not in the cache after \<open>set\<close> has stored a value for it that is
  neither a list nor a dict, after \<open>delete\<close> of it, and after a \<open>get\<close> that read
  it from the table as a value that is neither a list nor a dict.
\<close>

theorem cache_invariant:
  assumes "open_cupboard ''c'' wb e0 = (Inr self0, e1)"
      and "run (self0, e1) ops = (self, e)"
  shows "cache_ok (self, e)
       \<and> (\<forall>k v self' e'. v < length (heap e) \<and> \<not> is_mutable (heap e ! v)
              \<and> setitem (self, e) (PStr k) v = (Inr (), self', e') \<longrightarrow> \<not> cached self' (PStr k))
       \<and> (\<forall>key self' e'. delitem (self, e) key = (Inr (), self', e') \<longrightarrow> \<not> cached self' key)
       \<and> (\<forall>k a self' e'. \<not> cached self (PStr k) \<and> getitem (self, e) (PStr k) = (Inr a, self', e')
              \<and> \<not> is_mutable (heap e' ! a) \<longrightarrow> \<not> cached self' (PStr k))"
proof (intro conjI allI impI)
  have "cache_ok (self0, e1)"
    using assms(1) by (auto simp add: open_cupboard_def cache_ok_def split: if_splits)
  then show "cache_ok (self, e)" using run_cache_ok [of "(self0, e1)" ops] assms(2) by simp
next
  fix k v self' e'
  assume "v < length (heap e) \<and> \<not> is_mutable (heap e ! v)
              \<and> setitem (self, e) (PStr k) v = (Inr (), self', e')"
  then show "\<not> cached self' (PStr k)"
    by (auto simp add: setitem_def update_cache_def cache_def conn_def Let_def not_cached_delete
        split: sum.splits option.splits)
next
  fix key self' e'
  assume d: "delitem (self, e) key = (Inr (), self', e')"
  show "\<not> cached self' key"
  proof (cases key)
    case (PStr k)
    then show ?thesis using d
      by (auto simp add: delitem_def cache_def conn_def Let_def not_cached_delete
          split: sum.splits option.splits)
  next
    case PNone
    then show ?thesis by (simp add: cached_def split: option.splits)
  qed (simp_all add: cached_def split: option.splits)
next
  fix k a self' e'
  assume g: "\<not> cached self (PStr k) \<and> getitem (self, e) (PStr k) = (Inr a, self', e')
              \<and> \<not> is_mutable (heap e' ! a)"
  then obtain c where c: "slot_cache self = Some c" "map_of c k = None"
    by (auto simp add: getitem_def cache_def cached_def map_of_eq_None_iff split: option.splits)
  then obtain cn jstr v where
    r: "slot_conn self = Some cn" "select_value (rows e) k = Some jstr" "json_loads jstr = Inr v"
    using g by (auto simp add: getitem_def cache_def conn_def split: option.splits sum.splits)
  let ?e1 = "e\<lparr>heap := heap e @ [v]\<rparr>"
  have u: "update_cache (self, ?e1) k (length (heap e)) = (Inr (), self', e')"
    and a: "a = length (heap e)"
    using g c r by (auto simp add: getitem_def cache_def conn_def Let_def split: prod.splits sum.splits)
  have "heap e' = heap ?e1" using u c
    by (auto simp add: update_cache_def cache_def Let_def split: if_splits)
  then have "\<not> is_mutable (heap ?e1 ! length (heap e))" using g a by simp
  then show "\<not> cached self' (PStr k)" using u c
    by (auto simp add: update_cache_def cache_def Let_def not_cached_delete)
qed

theorem cache_invariant_witness:
  "open_cupboard ''c'' True \<lparr>rows = [], heap = [], conns = []\<rparr>
     = (Inr \<lparr>writeback = True, slot_cache = Some [], slot_conn = Some 0\<rparr>,
        \<lparr>rows = [], heap = [], conns = [True]\<rparr>)
   \<and> run (\<lparr>writeback = True, slot_cache = Some [], slot_conn = Some 0\<rparr>,
           \<lparr>rows = [], heap = [], conns = [True]\<rparr>)
          [New (PList []), Set (PStr ''a'') 0, New (PInt 1), Set (PStr ''n'') 1]
     = (\<lparr>writeback = True, slot_cache = Some [(''a'', 0)], slot_conn = Some 0\<rparr>,
        \<lparr>rows = [(''a'', JsonText (JArr [])), (''n'', JsonText (JInt 1))],
         heap = [PList [], PInt 1], conns = [True]\<rparr>)
   \<and> cache_ok (\<lparr>writeback = True, slot_cache = Some [(''a'', 0)], slot_conn = Some 0\<rparr>,
        \<lparr>rows = [(''a'', JsonText (JArr [])), (''n'', JsonText (JInt 1))],
         heap = [PList [], PInt 1], conns = [True]\<rparr>)
   \<and> setitem (\<lparr>writeback = True, slot_cache = Some [(''a'', 0)], slot_conn = Some 0\<rparr>,
        \<lparr>rows = [(''a'', JsonText (JArr [])), (''n'', JsonText (JInt 1))],
         heap = [PList [], PInt 1], conns = [True]\<rparr>) (PStr ''a'') 1
     = (Inr (), \<lparr>writeback = True, slot_cache = Some [], slot_conn = Some 0\<rparr>,
        \<lparr>rows = [(''n'', JsonText (JInt 1)), (''a'', JsonText (JInt 1))],
         heap = [PList [], PInt 1], conns = [True]\<rparr>)
   \<and> \<not> cached \<lparr>writeback = True, slot_cache = Some [], slot_conn = Some 0\<rparr> (PStr ''a'')
   \<and> delitem (\<lparr>writeback = True, slot_cache = Some [(''a'', 0)], slot_conn = Some 0\<rparr>,
        \<lparr>rows = [(''a'', JsonText (JArr [])), (''n'', JsonText (JInt 1))],
         heap = [PList [], PInt 1], conns = [True]\<rparr>) (PStr ''a'')
     = (Inr (), \<lparr>writeback = True, slot_cache = Some [], slot_conn = Some 0\<rparr>,
        \<lparr>rows = [(''n'', JsonText (JInt 1))], heap = [PList [], PInt 1], conns = [True]\<rparr>)
   \<and> getitem (\<lparr>writeback = True, slot_cache = Some [(''a'', 0)], slot_conn = Some 0\<rparr>,
        \<lparr>rows = [(''a'', JsonText (JArr [])), (''n'', JsonText (JInt 1))],
         heap = [PList [], PInt 1], conns = [True]\<rparr>) (PStr ''n'')
     = (Inr 2, \<lparr>writeback = True, slot_cache = Some [(''a'', 0)], slot_conn = Some 0\<rparr>,
        \<lparr>rows = [(''a'', JsonText (JArr [])), (''n'', JsonText (JInt 1))],
         heap = [PList [], PInt 1, PInt 1], conns = [True]\<rparr>)
   \<and> \<not> cached \<lparr>writeback = True, slot_cache = Some [(''a'', 0)], slot_conn = Some 0\<rparr> (PStr ''n'')"
proof -
  let ?init = "\<lparr>rows = [], heap = [], conns = []\<rparr>"
  let ?opened = "\<lparr>writeback = True, slot_cache = Some [], slot_conn = Some 0\<rparr>"
  let ?einit = "\<lparr>rows = [], heap = [], conns = [True]\<rparr>"
  let ?ops = "[New (PList []), Set (PStr ''a'') 0, New (PInt 1), Set (PStr ''n'') 1]"
  let ?self = "\<lparr>writeback = True, slot_cache = Some [(''a'', 0)], slot_conn = Some 0\<rparr>"
  let ?e = "\<lparr>rows = [(''a'', JsonText (JArr [])), (''n'', JsonText (JInt 1))],
         heap = [PList [], PInt 1], conns = [True]\<rparr>"
  have o: "open_cupboard ''c'' True ?init = (Inr ?opened, ?einit)"
    by (simp add: open_cupboard_def)
  have r: "run (?opened, ?einit) ?ops = (?self, ?e)"
    by code_simp
  note inv = cache_invariant [OF o r]
  have ok: "cache_ok (?self, ?e)" using inv by (rule conjunct1)
  have s: "setitem (?self, ?e) (PStr ''a'') 1
     = (Inr (), \<lparr>writeback = True, slot_cache = Some [], slot_conn = Some 0\<rparr>,
        \<lparr>rows = [(''n'', JsonText (JInt 1)), (''a'', JsonText (JInt 1))],
         heap = [PList [], PInt 1], conns = [True]\<rparr>)"
    by code_simp
  have d: "delitem (?self, ?e) (PStr ''a'')
     = (Inr (), \<lparr>writeback = True, slot_cache = Some [], slot_conn = Some 0\<rparr>,
        \<lparr>rows = [(''n'', JsonText (JInt 1))], heap = [PList [], PInt 1], conns = [True]\<rparr>)"
    by code_simp
  have g: "getitem (?self, ?e) (PStr ''n'')
     = (Inr 2, ?self, \<lparr>rows = [(''a'', JsonText (JArr [])), (''n'', JsonText (JInt 1))],
         heap = [PList [], PInt 1, PInt 1], conns = [True]\<rparr>)"
    by code_simp
  have n1: "\<not> cached \<lparr>writeback = True, slot_cache = Some [], slot_conn = Some 0\<rparr> (PStr ''a'')"
    using inv [THEN conjunct2, THEN conjunct2, THEN conjunct1] d by blast
  have n2: "\<not> cached ?self (PStr ''n'')" by (simp add: cached_def)
  show ?thesis using o r ok s d g n1 n2 by simp
qed

section \<open>Writeback\<close>

lemma sync_loop_other:
  "sync_loop c h t0 = Inr t \<Longrightarrow> k \<notin> fst ` set c \<Longrightarrow> map_of t k = map_of t0 k"
proof (induction c h t0 rule: sync_loop.induct)
  case (1 h t)
  then show ?case by simp
next
  case (2 kv c h t0)
  then obtain jstr where j: "json_dumps (h ! snd kv) = Inr jstr"
    by (auto split: sum.splits)
  have "map_of t k = map_of (insert_or_replace (fst kv) jstr t0) k"
    using 2 j by auto
  also have "\<dots> = map_of t0 k"
    using "2.prems"(2)
    by (auto simp add: insert_or_replace_def map_add_def delete_conv' split: option.splits)
  finally show ?case .
qed

lemma sync_loop_result:
  assumes "distinct (map fst c)"
      and "list_all (\<lambda>kv. case json_dumps (h ! snd kv) of Inl _ \<Rightarrow> False | Inr _ \<Rightarrow> True) c"
  shows "\<exists>t. sync_loop c h t0 = Inr t
           \<and> (\<forall>k a. (k, a) \<in> set c \<longrightarrow> (\<exists>j. json_dumps (h ! a) = Inr j \<and> map_of t k = Some j))"
  using assms
proof (induction c arbitrary: t0)
  case Nil
  then show ?case by simp
next
  case (Cons kv c)
  obtain jstr where j: "json_dumps (h ! snd kv) = Inr jstr"
    using Cons.prems(2) by (auto split: sum.splits)
  let ?t1 = "insert_or_replace (fst kv) jstr t0"
  have "distinct (map fst c)" and fresh: "fst kv \<notin> fst ` set c"
    using Cons.prems(1) by auto
  moreover have "list_all (\<lambda>kv. case json_dumps (h ! snd kv) of Inl _ \<Rightarrow> False | Inr _ \<Rightarrow> True) c"
    using Cons.prems(2) by simp
  ultimately obtain t where t: "sync_loop c h ?t1 = Inr t"
    "\<forall>k a. (k, a) \<in> set c \<longrightarrow> (\<exists>j. json_dumps (h ! a) = Inr j \<and> map_of t k = Some j)"
    using Cons.IH [of ?t1] by blast
  have s: "sync_loop (kv # c) h t0 = Inr t" using j t(1) by simp
  have "map_of t (fst kv) = map_of ?t1 (fst kv)"
    using sync_loop_other [OF t(1) fresh] .
  then have hd: "map_of t (fst kv) = Some jstr"
    using select_after_insert [of "fst kv" jstr t0] by (simp add: select_value_def)
  have "\<forall>k a. (k, a) \<in> set (kv # c) \<longrightarrow> (\<exists>j. json_dumps (h ! a) = Inr j \<and> map_of t k = Some j)"
    using t(2) hd j by auto
  then show ?case using s by blast
qed

lemma getitem_fresh:
  assumes "slot_cache self = Some []" "slot_conn self = Some cn"
      and "map_of (rows e) k = Some (JsonText j)"
  shows "\<exists>st. getitem (self, e) (PStr k) = (Inr (length (heap e)), st)
           \<and> heap (snd st) = heap e @ [loads j]"
  using assms
  by (auto simp add: getitem_def cache_def conn_def select_value_def update_cache_def Let_def)

lemma getitem_writeback:
  assumes wb: "writeback self"
      and opened: "slot_cache self = Some c" "slot_conn self = Some cn"
      and wf: "wf_state (self, e)"
      and get: "getitem (self, e) (PStr k) = (Inr a, self1, e1)"
      and mut: "is_mutable (heap e1 ! a)"
  shows "\<exists>c1. slot_cache self1 = Some c1 \<and> distinct (map fst c1) \<and> (k, a) \<in> set c1
           \<and> slot_conn self1 = Some cn \<and> a < length (heap e1)"
proof (cases "map_of c k")
  case (Some b)
  then have "self1 = self" "e1 = e" "a = b"
    using get opened by (simp_all add: getitem_def cache_def)
  moreover have "(k, b) \<in> set c" using Some by (rule map_of_SomeD)
  moreover have "distinct (map fst c)" "list_all (\<lambda>kv. snd kv < length (heap e)) c"
    using wf opened by (simp_all add: wf_state_def)
  ultimately show ?thesis using opened by (auto simp add: list_all_iff)
next
  case None
  then obtain jstr v where
    r: "select_value (rows e) k = Some jstr" "json_loads jstr = Inr v"
    using get opened by (auto simp add: getitem_def cache_def conn_def split: option.splits sum.splits)
  let ?e1 = "e\<lparr>heap := heap e @ [v]\<rparr>"
  have u: "update_cache (self, ?e1) k (length (heap e)) = (Inr (), self1, e1)"
    and a: "a = length (heap e)"
    using get opened None r
    by (auto simp add: getitem_def cache_def conn_def Let_def split: prod.splits sum.splits)
  have e1: "e1 = ?e1" using u opened
    by (auto simp add: update_cache_def cache_def Let_def split: if_splits)
  then have "is_mutable (heap ?e1 ! length (heap e))" using mut a by simp
  then have s1: "self1 = self\<lparr>slot_cache := Some (AList.update k a (AList.delete k c))\<rparr>"
    using u opened wb a by (auto simp add: update_cache_def cache_def Let_def)
  have "distinct (map fst c)" using wf opened by (simp add: wf_state_def)
  then have "distinct (map fst (AList.update k a (AList.delete k c)))"
    by (simp add: distinct_update distinct_delete)
  moreover have "map_of (AList.update k a (AList.delete k c)) k = Some a"
    by (simp add: update_conv')
  then have "(k, a) \<in> set (AList.update k a (AList.delete k c))" by (rule map_of_SomeD)
  ultimately show ?thesis using s1 e1 a opened by simp
qed

text \<open>
  C2. Under writeback, let \<open>get(k)\<close> return a list or a dict, and let the caller
  change that object in place to a supported value, every cached object being
  encodable. Then \<open>sync()\<close> returns normally, and so does \<open>close()\<close>, with the same
  rows; and on any new handle over a file with these rows, \<open>get(k)\<close> returns an
  object whose value is the changed one.
\<close>

theorem writeback_mutation_persisted:
  assumes wb: "writeback self"
      and opened: "slot_cache self = Some c" "slot_conn self = Some cn"
      and wf: "wf_state (self, e)"
      and get: "getitem (self, e) (PStr k) = (Inr a, self1, e1)"
      and mut: "is_mutable (heap e1 ! a)"
      and new: "same_type (heap e1 ! a) v'" "supported v'"
      and enc: "cache_encodable (self1, mutate a v' e1)"
  shows "\<exists>t. sync (self1, mutate a v' e1) = (Inr (), self1, (mutate a v' e1)\<lparr>rows := t\<rparr>)
           \<and> close (self1, mutate a v' e1)
               = (Inr (), self1\<lparr>slot_conn := None, slot_cache := None\<rparr>,
                  (mutate a v' e1)\<lparr>rows := t, conns := (conns e1)[cn := False]\<rparr>)
           \<and> (\<forall>e3 wb' self' e4. rows e3 = t \<and> open_cupboard ''c'' wb' e3 = (Inr self', e4) \<longrightarrow>
                (\<exists>b st. getitem (self', e4) (PStr k) = (Inr b, st)
                   \<and> b < length (heap (snd st)) \<and> heap (snd st) ! b = v'))"
proof -
  obtain c1 where c1: "slot_cache self1 = Some c1" "distinct (map fst c1)" "(k, a) \<in> set c1"
      "slot_conn self1 = Some cn" "a < length (heap e1)"
    using getitem_writeback [OF wb opened wf get mut] by blast
  let ?e2 = "mutate a v' e1"
  have e2: "?e2 = e1\<lparr>heap := (heap e1)[a := v']\<rparr>"
    using c1(5) new(1) by (simp add: mutate_def)
  have val: "heap ?e2 ! a = v'" using e2 c1(5) by simp
  have "list_all (\<lambda>kv. case json_dumps (heap ?e2 ! snd kv) of Inl _ \<Rightarrow> False | Inr _ \<Rightarrow> True) c1"
    using enc c1(1) by (simp add: cache_encodable_def)
  from sync_loop_result [OF c1(2) this, of "rows ?e2"] obtain t where
    t: "sync_loop c1 (heap ?e2) (rows ?e2) = Inr t"
       "\<forall>k a. (k, a) \<in> set c1 \<longrightarrow> (\<exists>j. json_dumps (heap ?e2 ! a) = Inr j \<and> map_of t k = Some j)"
    by blast
  have ne: "c1 \<noteq> []" using c1(3) by auto
  have s: "sync (self1, ?e2) = (Inr (), self1, ?e2\<lparr>rows := t\<rparr>)"
    using c1(1,4) ne t(1) by (simp add: sync_def cache_def conn_def)
  have "conns ?e2 = conns e1" using e2 by simp
  then have cl: "close (self1, ?e2)
               = (Inr (), self1\<lparr>slot_conn := None, slot_cache := None\<rparr>,
                  ?e2\<lparr>rows := t, conns := (conns e1)[cn := False]\<rparr>)"
    using s c1(4) by (simp add: close_def conn_def)
  obtain j where j: "dumps v' = Inr j" "loads j = v'"
    using dumps_loads(1) [OF new(2)] by blast
  have row: "map_of t k = Some (JsonText j)"
    using t(2) c1(3) val j(1) by (fastforce simp add: json_dumps_def)
  have fresh: "\<exists>b st. getitem (self', e4) (PStr k) = (Inr b, st)
                   \<and> b < length (heap (snd st)) \<and> heap (snd st) ! b = v'"
    if o: "rows e3 = t \<and> open_cupboard ''c'' wb' e3 = (Inr self', e4)" for e3 wb' self' e4
  proof -
    have h: "slot_cache self' = Some []" "slot_conn self' = Some (length (conns e3))"
      "rows e4 = t"
      using o by (auto simp add: open_cupboard_def)
    from getitem_fresh [OF h(1,2), of e4 k j] row h(3) obtain st where
      "getitem (self', e4) (PStr k) = (Inr (length (heap e4)), st)"
      "heap (snd st) = heap e4 @ [loads j]" by auto
    then show ?thesis using j(2) by auto
  qed
  show ?thesis using s cl fresh by blast
qed

theorem writeback_mutation_persisted_witness:
  "writeback \<lparr>writeback = True, slot_cache = Some [(''x'', 0)], slot_conn = Some 0\<rparr>
   \<and> wf_state (\<lparr>writeback = True, slot_cache = Some [(''x'', 0)], slot_conn = Some 0\<rparr>,
        \<lparr>rows = [(''x'', JsonText (JObj [(''a'', JInt 1)]))],
         heap = [PDict [(KStr ''a'', PInt 1)]], conns = [True]\<rparr>)
   \<and> getitem (\<lparr>writeback = True, slot_cache = Some [(''x'', 0)], slot_conn = Some 0\<rparr>,
        \<lparr>rows = [(''x'', JsonText (JObj [(''a'', JInt 1)]))],
         heap = [PDict [(KStr ''a'', PInt 1)]], conns = [True]\<rparr>) (PStr ''x'')
      = (Inr 0, \<lparr>writeback = True, slot_cache = Some [(''x'', 0)], slot_conn = Some 0\<rparr>,
        \<lparr>rows = [(''x'', JsonText (JObj [(''a'', JInt 1)]))],
         heap = [PDict [(KStr ''a'', PInt 1)]], conns = [True]\<rparr>)
   \<and> same_type (PDict [(KStr ''a'', PInt 1)]) (PDict [(KStr ''a'', PInt 2)])
   \<and> supported (PDict [(KStr ''a'', PInt 2)])
   \<and> mutate 0 (PDict [(KStr ''a'', PInt 2)])
        \<lparr>rows = [(''x'', JsonText (JObj [(''a'', JInt 1)]))],
         heap = [PDict [(KStr ''a'', PInt 1)]], conns = [True]\<rparr>
      = \<lparr>rows = [(''x'', JsonText (JObj [(''a'', JInt 1)]))],
         heap = [PDict [(KStr ''a'', PInt 2)]], conns = [True]\<rparr>
   \<and> cache_encodable (\<lparr>writeback = True, slot_cache = Some [(''x'', 0)], slot_conn = Some 0\<rparr>,
        \<lparr>rows = [(''x'', JsonText (JObj [(''a'', JInt 1)]))],
         heap = [PDict [(KStr ''a'', PInt 2)]], conns = [True]\<rparr>)
   \<and> sync (\<lparr>writeback = True, slot_cache = Some [(''x'', 0)], slot_conn = Some 0\<rparr>,
        \<lparr>rows = [(''x'', JsonText (JObj [(''a'', JInt 1)]))],
         heap = [PDict [(KStr ''a'', PInt 2)]], conns = [True]\<rparr>)
      = (Inr (), \<lparr>writeback = True, slot_cache = Some [(''x'', 0)], slot_conn = Some 0\<rparr>,
        \<lparr>rows = [(''x'', JsonText (JObj [(''a'', JInt 2)]))],
         heap = [PDict [(KStr ''a'', PInt 2)]], conns = [True]\<rparr>)
   \<and> open_cupboard ''c'' False \<lparr>rows = [(''x'', JsonText (JObj [(''a'', JInt 2)]))],
         heap = [], conns = []\<rparr>
      = (Inr \<lparr>writeback = False, slot_cache = Some [], slot_conn = Some 0\<rparr>,
         \<lparr>rows = [(''x'', JsonText (JObj [(''a'', JInt 2)]))], heap = [], conns = [True]\<rparr>)
   \<and> (\<exists>b st. getitem (\<lparr>writeback = False, slot_cache = Some [], slot_conn = Some 0\<rparr>,
         \<lparr>rows = [(''x'', JsonText (JObj [(''a'', JInt 2)]))], heap = [], conns = [True]\<rparr>)
         (PStr ''x'') = (Inr b, st)
        \<and> b < length (heap (snd st)) \<and> heap (snd st) ! b = PDict [(KStr ''a'', PInt 2)])"
proof -
  let ?self = "\<lparr>writeback = True, slot_cache = Some [(''x'', 0)], slot_conn = Some 0\<rparr>"
  let ?e = "\<lparr>rows = [(''x'', JsonText (JObj [(''a'', JInt 1)]))],
         heap = [PDict [(KStr ''a'', PInt 1)]], conns = [True]\<rparr>"
  let ?e2 = "\<lparr>rows = [(''x'', JsonText (JObj [(''a'', JInt 1)]))],
         heap = [PDict [(KStr ''a'', PInt 2)]], conns = [True]\<rparr>"
  let ?v = "PDict [(KStr ''a'', PInt 2)]"
  let ?t = "[(''x'', JsonText (JObj [(''a'', JInt 2)]))]"
  let ?e3 = "\<lparr>rows = ?t, heap = [], conns = []\<rparr>"
  have h1: "writeback ?self" and h2: "slot_cache ?self = Some [(''x'', 0)]"
    and h3: "slot_conn ?self = Some 0" by simp_all
  have h4: "wf_state (?self, ?e)" by (simp add: wf_state_def)
  have h5: "getitem (?self, ?e) (PStr ''x'') = (Inr 0, ?self, ?e)"
    by (simp add: getitem_def cache_def)
  have h6: "is_mutable (heap ?e ! 0)" by simp
  have h7: "same_type (heap ?e ! 0) ?v" and h8: "supported ?v" by simp_all
  have m: "mutate 0 ?v ?e = ?e2" by (simp add: mutate_def)
  have h9: "cache_encodable (?self, mutate 0 ?v ?e)"
    unfolding m by (simp add: cache_encodable_def json_dumps_def)
  have s: "sync (?self, ?e2) = (Inr (), ?self, ?e2\<lparr>rows := ?t\<rparr>)"
    by (simp add: sync_def cache_def conn_def json_dumps_def insert_or_replace_def)
  have o: "open_cupboard ''c'' False ?e3
      = (Inr \<lparr>writeback = False, slot_cache = Some [], slot_conn = Some 0\<rparr>,
         \<lparr>rows = ?t, heap = [], conns = [True]\<rparr>)"
    by (simp add: open_cupboard_def)
  from writeback_mutation_persisted [OF h1 h2 h3 h4 h5 h6 h7 h8 h9] obtain t where
    t: "sync (?self, mutate 0 ?v ?e) = (Inr (), ?self, (mutate 0 ?v ?e)\<lparr>rows := t\<rparr>)"
       "\<forall>e3 wb' self' e4. rows e3 = t \<and> open_cupboard ''c'' wb' e3 = (Inr self', e4) \<longrightarrow>
                (\<exists>b st. getitem (self', e4) (PStr ''x'') = (Inr b, st)
                   \<and> b < length (heap (snd st)) \<and> heap (snd st) ! b = ?v)"
    by blast
  have "t = ?t" using t(1) s unfolding m by simp
  then have "rows ?e3 = t" by simp
  then have "\<exists>b st. getitem (\<lparr>writeback = False, slot_cache = Some [], slot_conn = Some 0\<rparr>,
         \<lparr>rows = ?t, heap = [], conns = [True]\<rparr>) (PStr ''x'') = (Inr b, st)
        \<and> b < length (heap (snd st)) \<and> heap (snd st) ! b = ?v"
    using t(2) [THEN spec, THEN spec, THEN spec, THEN spec, of ?e3 False
        "\<lparr>writeback = False, slot_cache = Some [], slot_conn = Some 0\<rparr>"
        "\<lparr>rows = ?t, heap = [], conns = [True]\<rparr>"] o by blast
  then show ?thesis using h1 h4 h5 h7 h8 m h9 s o by simp
qed

section \<open>The size of the store\<close>

lemma keys_insert_or_replace:
  "fst ` set (insert_or_replace k j t) = insert k (fst ` set t)"
  by (auto simp add: insert_or_replace_def AList.delete_eq image_iff)

lemma distinct_insert_or_replace:
  "distinct (map fst t) \<Longrightarrow> distinct (map fst (insert_or_replace k j t))"
  by (simp add: insert_or_replace_def distinct_delete delete_notin_dom)

lemma sync_loop_keys:
  "sync_loop c h t0 = Inr t \<Longrightarrow>
     fst ` set t = fst ` set t0 \<union> fst ` set c
     \<and> (distinct (map fst t0) \<longrightarrow> distinct (map fst t))"
proof (induction c h t0 rule: sync_loop.induct)
  case (1 h t0)
  then show ?case by simp
next
  case (2 kv c h t0)
  then obtain jstr where j: "json_dumps (h ! snd kv) = Inr jstr"
    by (auto split: sum.splits)
  then have "sync_loop c h (insert_or_replace (fst kv) jstr t0) = Inr t"
    using "2.prems" by simp
  from "2.IH" [OF j this] show ?case
    by (auto simp add: keys_insert_or_replace distinct_insert_or_replace)
qed

lemma keys_update: "fst ` set (AList.update k v c) = insert k (fst ` set c)"
  by (induction c) auto

lemma keys_delete: "fst ` set (AList.delete k c) = fst ` set c - {k}"
  by (auto simp add: AList.delete_eq image_iff)

lemma update_cache_tracks:
  assumes "tracks (self, e) K" "k \<in> fst ` set (rows e)"
  shows "tracks (snd (update_cache (self, e) k a)) K"
proof -
  obtain c cn where o: "slot_cache self = Some c" "slot_conn self = Some cn"
      "fst ` set c \<subseteq> fst ` set (rows e)"
    and r: "distinct (map fst (rows e))" "K = PStr ` fst ` set (rows e)"
    using assms(1) by (auto simp add: tracks_def)
  have d: "fst ` set (AList.delete k c) \<subseteq> fst ` set (rows e)"
    using o(3) by (auto simp add: keys_delete)
  have u: "fst ` set (AList.update k a (AList.delete k c)) \<subseteq> fst ` set (rows e)"
    using d assms(2) by (simp add: keys_update)
  show ?thesis
  proof (cases "writeback self \<and> is_mutable (heap e ! a)")
    case True
    then have "snd (update_cache (self, e) k a)
        = (self\<lparr>slot_cache := Some (AList.update k a (AList.delete k c))\<rparr>, e)"
      using o by (simp add: update_cache_def cache_def)
    then show ?thesis using o r u by (simp add: tracks_def)
  next
    case False
    then have "snd (update_cache (self, e) k a)
        = (self\<lparr>slot_cache := Some (AList.delete k c)\<rparr>, e)"
      using o by (auto simp add: update_cache_def cache_def)
    then show ?thesis using o r d by (simp add: tracks_def)
  qed
qed

lemma tracks_heap: "tracks (self, e\<lparr>heap := h\<rparr>) K = tracks (self, e) K"
  by (simp add: tracks_def)

lemma getitem_tracks:
  assumes "tracks (self, e) K"
  shows "tracks (snd (getitem (self, e) key)) K"
proof (cases key)
  case (PStr k)
  show ?thesis
  proof (cases "getitem (self, e) key = (fst (getitem (self, e) key), self, e)")
    case True
    then show ?thesis using assms by (metis snd_conv)
  next
    case False
    then obtain c cn jstr v where
      g: "slot_cache self = Some c" "map_of c k = None" "slot_conn self = Some cn"
         "select_value (rows e) k = Some jstr" "json_loads jstr = Inr v"
      using PStr
      by (auto simp add: getitem_def cache_def conn_def split: option.splits sum.splits)
    let ?e1 = "e\<lparr>heap := heap e @ [v]\<rparr>"
    have "snd (getitem (self, e) key) = snd (update_cache (self, ?e1) k (length (heap e)))"
      using PStr g by (auto simp add: getitem_def cache_def conn_def Let_def split: prod.splits sum.splits)
    moreover have "k \<in> fst ` set (rows ?e1)"
      using g(4) by (auto simp add: select_value_def dest: map_of_SomeD intro: rev_image_eqI)
    then have "tracks (snd (update_cache (self, ?e1) k (length (heap e)))) K"
      using assms by (intro update_cache_tracks) (simp_all add: tracks_heap)
    ultimately show ?thesis by simp
  qed
qed (use assms in \<open>simp_all add: getitem_def\<close>)

lemma setitem_tracks:
  assumes "tracks (self, e) K"
  shows "tracks (snd (setitem (self, e) key a))
           (if fst (setitem (self, e) key a) = Inr () then insert key K else K)"
proof (cases key)
  case (PStr k)
  obtain c cn where o: "slot_cache self = Some c" "slot_conn self = Some cn"
    using assms by (auto simp add: tracks_def)
  show ?thesis
  proof (cases "json_dumps (heap e ! a)")
    case (Inl err)
    then show ?thesis using assms PStr by (simp add: setitem_def)
  next
    case (Inr jstr)
    let ?e1 = "e\<lparr>rows := insert_or_replace k jstr (rows e)\<rparr>"
    have s: "setitem (self, e) key a = update_cache (self, ?e1) k a"
      using PStr Inr o by (simp add: setitem_def conn_def)
    have ok: "fst (update_cache (self, ?e1) k a) = Inr ()"
      using o by (simp add: update_cache_def cache_def Let_def)
    have "tracks (self, ?e1) (insert key K)"
      using assms PStr o
      by (auto simp add: tracks_def keys_insert_or_replace distinct_insert_or_replace)
    then have "tracks (snd (update_cache (self, ?e1) k a)) (insert key K)"
      by (rule update_cache_tracks) (simp add: keys_insert_or_replace)
    then show ?thesis using s ok by simp
  qed
qed (use assms in \<open>simp_all add: setitem_def\<close>)

lemma delitem_tracks:
  assumes "tracks (self, e) K"
  shows "fst (delitem (self, e) (PStr k)) = Inr ()
       \<and> tracks (snd (delitem (self, e) (PStr k))) (K - {PStr k})"
proof -
  obtain c cn where o: "slot_cache self = Some c" "slot_conn self = Some cn"
      "fst ` set c \<subseteq> fst ` set (rows e)"
    and r: "distinct (map fst (rows e))" "K = PStr ` fst ` set (rows e)"
    using assms(1) by (auto simp add: tracks_def)
  let ?self1 = "self\<lparr>slot_cache := Some (AList.delete k c)\<rparr>"
  let ?e1 = "e\<lparr>rows := AList.delete k (rows e)\<rparr>"
  have d: "delitem (self, e) (PStr k) = (Inr (), ?self1, ?e1)"
    using o by (simp add: delitem_def conn_def cache_def delete_where_def)
  have "inj PStr" by (simp add: inj_def)
  then have "PStr ` (fst ` set (rows e) - {k}) = PStr ` fst ` set (rows e) - {PStr k}"
    by (simp add: image_set_diff)
  then have K: "K - {PStr k} = PStr ` fst ` set (rows ?e1)"
    using r(2) by (simp add: keys_delete)
  have "fst ` set (AList.delete k c) \<subseteq> fst ` set (rows ?e1)"
    using o(3) by (auto simp add: keys_delete)
  moreover have "distinct (map fst (rows ?e1))" using r(1) by (simp add: distinct_delete)
  ultimately have "tracks (?self1, ?e1) (K - {PStr k})"
    using o K unfolding tracks_def by simp
  then show ?thesis using d by simp
qed

lemma sync_tracks:
  assumes "tracks (self, e) K"
  shows "tracks (snd (sync (self, e))) K"
proof -
  obtain c cn where o: "slot_cache self = Some c" "slot_conn self = Some cn"
      "fst ` set c \<subseteq> fst ` set (rows e)"
    using assms by (auto simp add: tracks_def)
  show ?thesis
  proof (cases "sync_loop c (heap e) (rows e)")
    case (Inl err)
    then show ?thesis using assms o by (simp add: sync_def cache_def conn_def)
  next
    case (Inr t)
    from sync_loop_keys [OF this] o(3) have
      "fst ` set t = fst ` set (rows e)"
      "distinct (map fst (rows e)) \<longrightarrow> distinct (map fst t)" by auto
    then have "tracks (self, e\<lparr>rows := t\<rparr>) K"
      using assms o by (auto simp add: tracks_def)
    then show ?thesis using assms o Inr by (simp add: sync_def cache_def conn_def)
  qed
qed

lemma step_tracks:
  assumes "tracks st K" "documented x"
  shows "tracks (step st x) (live_keys st [x] K)"
proof -
  obtain self e where st: "st = (self, e)" by (cases st)
  have o: "\<exists>cn. slot_conn self = Some cn" using assms(1) st by (auto simp add: tracks_def)
  show ?thesis
  proof (cases x)
    case (Get key)
    then show ?thesis using assms st getitem_tracks by simp
  next
    case (Set key a)
    show ?thesis
    proof (cases "a < length (heap e)")
      case True
      then show ?thesis using Set assms st setitem_tracks [of self e K key a] by simp
    next
      case False
      then show ?thesis using Set assms st by simp
    qed
  next
    case (Del key)
    then obtain k where "key = PStr k" using assms(2) by (cases key) simp_all
    then show ?thesis using Del assms st delitem_tracks [of self e K k] by simp
  next
    case (Contains key)
    then show ?thesis using assms st getitem_tracks by (simp add: contains_state)
  next
    case Len
    then show ?thesis using assms st o by (auto simp add: len_def conn_def)
  next
    case Iter
    then show ?thesis using assms st o by (auto simp add: iter_def conn_def)
  next
    case Sync
    then show ?thesis using assms st sync_tracks by simp
  next
    case Close
    then show ?thesis using assms by simp
  next
    case (New v)
    then show ?thesis using assms st by (simp add: alloc_def tracks_heap)
  next
    case (Mutate a v)
    then show ?thesis using assms st by (auto simp add: mutate_def tracks_heap)
  qed
qed

lemma run_tracks:
  "tracks st K \<Longrightarrow> list_all documented ops \<Longrightarrow> tracks (run st ops) (live_keys st ops K)"
proof (induction ops arbitrary: st K)
  case Nil
  then show ?case by (simp add: run_def)
next
  case (Cons x xs)
  have "tracks (step st x) (live_keys st [x] K)"
    using Cons.prems by (intro step_tracks) simp_all
  from Cons.IH [OF this] Cons.prems(2) show ?case by (simp add: run_def)
qed

text \<open>
  What holds of \<open>size()\<close>: from an empty file, in either writeback mode, after any
  operations of which every \<open>delete\<close> has a str key, \<open>len\<close> is the number of keys
  set and not deleted since, whatever the cache holds.
\<close>

lemma size_counts_live_keys:
  assumes "open_cupboard ''c'' wb e0 = (Inr self0, e1)" "rows e0 = []"
      and "list_all documented ops"
  shows "fst (len (run (self0, e1) ops)) = Inr (card (live_keys (self0, e1) ops {}))"
proof -
  have "tracks (self0, e1) {}"
    using assms(1,2) by (auto simp add: open_cupboard_def tracks_def split: if_splits)
  from run_tracks [OF this assms(3)] obtain self e where
    r: "run (self0, e1) ops = (self, e)" and t: "tracks (self, e) (live_keys (self0, e1) ops {})"
    by (cases "run (self0, e1) ops") auto
  have "card (live_keys (self0, e1) ops {}) = card (fst ` set (rows e))"
    using t by (simp add: tracks_def card_image inj_on_def)
  also have "\<dots> = length (rows e)"
    using t by (metis (no_types, lifting) tracks_def case_prod_conv distinct_card length_map list.set_map)
  finally show ?thesis using r t by (auto simp add: len_def conn_def tracks_def)
qed

text \<open>
  C7 fails on the code: after \<open>db['42'] = 1\<close> and \<open>del db[42]\<close> on an empty
  file, \<open>len(db)\<close> is 0, while one key has been set and the key deleted since is
  another one (the int 42, not the str).
\<close>

theorem size_after_int_delete:
  "fst (len (run (\<lparr>writeback = False, slot_cache = Some [], slot_conn = Some 0\<rparr>,
                  \<lparr>rows = [], heap = [PInt 1], conns = [True]\<rparr>)
                 [Set (PStr ''42'') 0, Del (PInt 42)])) = Inr 0
   \<and> card (live_keys (\<lparr>writeback = False, slot_cache = Some [], slot_conn = Some 0\<rparr>,
                  \<lparr>rows = [], heap = [PInt 1], conns = [True]\<rparr>)
                 [Set (PStr ''42'') 0, Del (PInt 42)] {}) = 1"
proof -
  let ?st = "(\<lparr>writeback = False, slot_cache = Some [], slot_conn = Some 0\<rparr>,
                  \<lparr>rows = [], heap = [PInt 1], conns = [True]\<rparr>)"
  have a: "fst (len (run ?st [Set (PStr ''42'') 0, Del (PInt 42)])) = Inr 0"
    by code_simp
  have s: "setitem ?st (PStr ''42'') 0
     = (Inr (), \<lparr>writeback = False, slot_cache = Some [], slot_conn = Some 0\<rparr>,
                  \<lparr>rows = [(''42'', JsonText (JInt 1))], heap = [PInt 1], conns = [True]\<rparr>)"
    by code_simp
  have d: "fst (delitem (\<lparr>writeback = False, slot_cache = Some [], slot_conn = Some 0\<rparr>,
                  \<lparr>rows = [(''42'', JsonText (JInt 1))], heap = [PInt 1], conns = [True]\<rparr>) (PInt 42))
             = Inr ()"
    by code_simp
  have "live_keys ?st [Set (PStr ''42'') 0, Del (PInt 42)] {} = {PStr ''42''}"
    using s d by simp
  then show ?thesis using a by simp
qed

end
